theory Spec2Isabelle
  imports Main "HOL-Library.Word" "HOL-Library.Monad_Syntax"
begin

unbundle bit_operations_syntax

section \<open>Data model of the deflate engine\<close>

text \<open>
  The embedding follows \<^verbatim>\<open>src/include/beast/core/detail/zlib/deflate.cpp\<close> (class
  \<^verbatim>\<open>deflate_stream\<close>, derived from \<^verbatim>\<open>z_stream\<close>) and
  \<^verbatim>\<open>src/include/beast/zlib/impl/basic_deflate_stream.ipp\<close>.

  Machine integers are words: \<^verbatim>\<open>uInt\<close>, \<^verbatim>\<open>unsigned\<close>, \<^verbatim>\<open>IPos\<close> and
  \<^verbatim>\<open>std::uint32_t\<close> are \<open>32 word\<close>, \<^verbatim>\<open>std::uint16_t\<close> is \<open>16 word\<close>, \<^verbatim>\<open>Byte\<close> is
  \<open>8 word\<close>, \<^verbatim>\<open>uLong\<close> and \<^verbatim>\<open>std::size_t\<close> are \<open>64 word\<close> (LP64). Values of type
  \<^verbatim>\<open>int\<close> and \<^verbatim>\<open>long\<close> (flush, level, strategy, nice_match, block_start, the local
  best_len) are \<open>int\<close>; the conversions between them and the unsigned fields are written
  out with \<open>uint\<close>, \<open>sint\<close> and \<open>word_of_int\<close>.

  Arrays are functions from the index: \<open>window\<close> for \<^verbatim>\<open>window_[0 .. 2*w_size)\<close>,
  \<open>head\<close> and \<open>prev\<close> for the two hash tables. A read outside the allocated range is
  undefined behaviour in the source; the model reads the function there.
\<close>

type_synonym byte = "8 word"
type_synonym u16 = "16 word"
type_synonym u32 = "32 word"
type_synonym u64 = "64 word"

datatype retcode = Z_OK | Z_STREAM_END | Z_STREAM_ERROR | Z_DATA_ERROR | Z_MEM_ERROR | Z_BUF_ERROR

datatype status = INIT_STATE | EXTRA_STATE | NAME_STATE | COMMENT_STATE | HCRC_STATE
  | BUSY_STATE | FINISH_STATE

datatype block_state = need_more | block_done | finish_started | finish_done

datatype compress_func = Stored | Fast | Slow

text \<open>
  Modelled from the spec: the constants of the missing headers \<^verbatim>\<open>zlib.hpp\<close> and
  \<^verbatim>\<open>deflate_stream.hpp\<close>. Section 3 of the spec gives \<open>MIN_MATCH = 3\<close>,
  \<open>MAX_MATCH = 258\<close>, \<open>MIN_LOOKAHEAD = MAX_MATCH + MIN_MATCH + 1\<close>,
  \<open>MAX_DIST = W - MIN_LOOKAHEAD\<close> and \<open>WIN_INIT = MAX_MATCH\<close>. The flush modes are
  numbered so that \<^verbatim>\<open>RANK\<close> puts \<^verbatim>\<open>Z_BLOCK\<close> between \<^verbatim>\<open>Z_NO_FLUSH\<close> and
  \<^verbatim>\<open>Z_PARTIAL_FLUSH\<close> and \<^verbatim>\<open>Z_BLOCK\<close> is the largest (deflate.cpp, lines 184 and 700).
\<close>

definition MIN_MATCH :: u32 where "MIN_MATCH = 3"
definition MAX_MATCH :: u32 where "MAX_MATCH = 258"
definition MIN_LOOKAHEAD :: u32 where "MIN_LOOKAHEAD = MAX_MATCH + MIN_MATCH + 1"
definition WIN_INIT :: u32 where "WIN_INIT = MAX_MATCH"
definition TOO_FAR :: u32 where "TOO_FAR = 4096"
definition NIL :: u32 where "NIL = 0"
definition LITERALS :: nat where "LITERALS = 256"
definition MAX_MEM_LEVEL :: int where "MAX_MEM_LEVEL = 9"

definition Z_NO_FLUSH :: int where "Z_NO_FLUSH = 0"
definition Z_PARTIAL_FLUSH :: int where "Z_PARTIAL_FLUSH = 1"
definition Z_SYNC_FLUSH :: int where "Z_SYNC_FLUSH = 2"
definition Z_FULL_FLUSH :: int where "Z_FULL_FLUSH = 3"
definition Z_FINISH :: int where "Z_FINISH = 4"
definition Z_BLOCK :: int where "Z_BLOCK = 5"

definition Z_DEFAULT_COMPRESSION :: int where "Z_DEFAULT_COMPRESSION = - 1"
definition Z_DEFAULT_STRATEGY :: int where "Z_DEFAULT_STRATEGY = 0"
definition Z_FILTERED :: int where "Z_FILTERED = 1"
definition Z_HUFFMAN_ONLY :: int where "Z_HUFFMAN_ONLY = 2"
definition Z_RLE :: int where "Z_RLE = 3"
definition Z_FIXED :: int where "Z_FIXED = 4"
definition Z_DEFLATED :: int where "Z_DEFLATED = 8"
definition Z_UNKNOWN :: int where "Z_UNKNOWN = 2"

lemmas flush_defs = Z_NO_FLUSH_def Z_PARTIAL_FLUSH_def Z_SYNC_FLUSH_def Z_FULL_FLUSH_def
  Z_FINISH_def Z_BLOCK_def

lemmas match_defs = MIN_MATCH_def MAX_MATCH_def MIN_LOOKAHEAD_def WIN_INIT_def TOO_FAR_def
  NIL_def

text \<open>
  The fields that the trees subsystem owns: the pending output (the \<^verbatim>\<open>pending_\<close>
  bytes starting at \<^verbatim>\<open>pending_out_\<close>, as a list), the tally buffers, the symbol
  frequencies and the bit accumulator.
\<close>

record tree_state =
  pending :: "byte list"
  last_lit :: u32
  d_buf :: "nat \<Rightarrow> u16"
  l_buf :: "nat \<Rightarrow> byte"
  dyn_ltree :: "nat \<Rightarrow> u16"
  dyn_dtree :: "nat \<Rightarrow> u16"
  bi_buf :: u16
  bi_valid :: int

text \<open>
  The stream: the caller's buffers of \<^verbatim>\<open>z_stream\<close> and the compressor state.
  \<open>next_in = None\<close> is the null pointer; otherwise the list holds the bytes at
  \<^verbatim>\<open>next_in\<close>, and reading advances it. \<open>next_out = None\<close> is the null pointer;
  otherwise the list holds the bytes written through \<^verbatim>\<open>next_out\<close> so far, and
  writing appends.
\<close>

record dstate =
  next_in :: "byte list option"
  avail_in :: u32
  total_in :: u64
  next_out :: "byte list option"
  avail_out :: u32
  total_out :: u64
  msg :: "retcode option"
  data_type :: int
  status :: status
  last_flush :: int
  w_size :: u32
  w_bits :: u32
  w_mask :: u32
  window :: "nat \<Rightarrow> byte"
  window_size :: u32
  prev :: "nat \<Rightarrow> u16"
  head :: "nat \<Rightarrow> u16"
  ins_h :: u32
  hash_size :: u32
  hash_bits :: u32
  hash_mask :: u32
  hash_shift :: u32
  block_start :: int
  match_length :: u32
  prev_match :: u32
  match_available :: int
  strstart :: u32
  match_start :: u32
  lookahead :: u32
  prev_length :: u32
  max_chain_length :: u32
  max_lazy_match :: u32
  level :: int
  strategy :: int
  good_match :: u32
  nice_match :: int
  insert :: u32
  high_water :: u32
  pending_buf_size :: u32
  lit_bufsize :: u32
  tr :: tree_state

definition MAX_DIST :: "dstate \<Rightarrow> u32" where
  "MAX_DIST s = w_size s - MIN_LOOKAHEAD"

text \<open>
  Modelled from the spec: the trees subsystem (\<^verbatim>\<open>_tr_init\<close>, \<^verbatim>\<open>_tr_flush_block\<close>,
  \<^verbatim>\<open>_tr_stored_block\<close>, \<^verbatim>\<open>_tr_align\<close>, \<^verbatim>\<open>_tr_flush_bits\<close>) and its tables
  \<^verbatim>\<open>_length_code\<close> and \<^verbatim>\<open>d_code\<close> are not part of the sources. Section 6.2 of the
  spec gives their contract: they read the stream and write the tally, the symbol tables,
  the bit accumulator and the pending output. They are parameters of every function that
  calls them: each operation reads the whole stream and returns the new \<open>tree_state\<close>.
  The block pointer handed to \<^verbatim>\<open>_tr_flush_block\<close> is an index into the window, or
  \<open>None\<close> for the null pointer.
\<close>

record trees_ops =
  tr_init :: "dstate \<Rightarrow> tree_state"
  tr_flush_block :: "dstate \<Rightarrow> nat option \<Rightarrow> u32 \<Rightarrow> bool \<Rightarrow> tree_state"
  tr_stored_block :: "dstate \<Rightarrow> nat option \<Rightarrow> u32 \<Rightarrow> bool \<Rightarrow> tree_state"
  tr_align :: "dstate \<Rightarrow> tree_state"
  tr_flush_bits :: "dstate \<Rightarrow> tree_state"
  length_code :: "byte \<Rightarrow> nat"
  d_code :: "u16 \<Rightarrow> nat"

record config =
  good_length :: u32
  max_lazy :: u32
  nice_length :: u32
  max_chain :: u32
  func :: compress_func

definition mk_config :: "u32 \<Rightarrow> u32 \<Rightarrow> u32 \<Rightarrow> u32 \<Rightarrow> compress_func \<Rightarrow> config" where
  "mk_config g l n c f =
     \<lparr>good_length = g, max_lazy = l, nice_length = n, max_chain = c, func = f\<rparr>"

text \<open>
  \<^verbatim>\<open>configuration_table[10]\<close>. The source indexes it with a level in \<open>0..9\<close> only; the
  model returns the last row outside that range.
\<close>

definition configuration_table :: "int \<Rightarrow> config" where
  "configuration_table l =
     (if l = 0 then mk_config 0 0 0 0 Stored
      else if l = 1 then mk_config 4 4 8 4 Fast
      else if l = 2 then mk_config 4 5 16 8 Fast
      else if l = 3 then mk_config 4 6 32 32 Fast
      else if l = 4 then mk_config 4 4 16 16 Slow
      else if l = 5 then mk_config 8 16 32 32 Slow
      else if l = 6 then mk_config 8 16 128 128 Slow
      else if l = 7 then mk_config 8 32 128 256 Slow
      else if l = 8 then mk_config 32 128 258 1024 Slow
      else mk_config 32 258 258 4096 Slow)"

section \<open>Initialisation and reset\<close>

text \<open>\<^verbatim>\<open>CLEAR_HASH\<close>: zero \<^verbatim>\<open>head_[0 .. hash_size)\<close>.\<close>

definition CLEAR_HASH :: "dstate \<Rightarrow> dstate" where
  "CLEAR_HASH s = s\<lparr>head := (\<lambda>i. if i < unat (hash_size s) then 0 else head s i)\<rparr>"

text \<open>\<^verbatim>\<open>deflate_stream::lm_init\<close> (deflate.cpp, line 855).\<close>

definition lm_init :: "dstate \<Rightarrow> dstate" where
  "lm_init s =
     (let s = s\<lparr>window_size := 2 * w_size s\<rparr>;
          s = CLEAR_HASH s;
          s = s\<lparr>max_lazy_match := max_lazy (configuration_table (level s)),
                good_match := good_length (configuration_table (level s)),
                nice_match := uint (nice_length (configuration_table (level s))),
                max_chain_length := max_chain (configuration_table (level s))\<rparr>
      in s\<lparr>strstart := 0, block_start := 0, lookahead := 0, insert := 0,
            match_length := MIN_MATCH - 1, prev_length := MIN_MATCH - 1,
            match_available := 0, ins_h := 0\<rparr>)"

text \<open>
  \<^verbatim>\<open>deflate_stream::deflateResetKeep\<close> (deflate.cpp, line 495). Its first statement is
  \<^verbatim>\<open>strm->total_in = strm->total_out = 0\<close>.
\<close>

definition deflateResetKeep :: "trees_ops \<Rightarrow> dstate \<Rightarrow> retcode \<times> dstate" where
  "deflateResetKeep ops s =
     (let s = s\<lparr>total_in := 0, total_out := 0, msg := None, data_type := Z_UNKNOWN\<rparr>;
          s = s\<lparr>tr := (tr s)\<lparr>pending := []\<rparr>\<rparr>;
          s = s\<lparr>status := BUSY_STATE, last_flush := Z_NO_FLUSH\<rparr>;
          s = s\<lparr>tr := tr_init ops s\<rparr>
      in (Z_OK, s))"

text \<open>
  \<^verbatim>\<open>basic_deflate_stream::deflateResetKeep\<close> (basic_deflate_stream.ipp, line 122). The
  four assignments to \<^verbatim>\<open>total_in\<close>, \<^verbatim>\<open>total_out\<close>, \<^verbatim>\<open>msg\<close> and \<^verbatim>\<open>data_type\<close> are
  commented out there (\<^verbatim>\<open>// VFALCO TODO\<close>): in that class the counters belong to the
  caller's \<^verbatim>\<open>z_params\<close>, which this member function does not receive. The model keeps
  them in the same record and leaves them alone.
\<close>

definition basic_deflateResetKeep :: "trees_ops \<Rightarrow> dstate \<Rightarrow> dstate" where
  "basic_deflateResetKeep ops s =
     (let s = s\<lparr>tr := (tr s)\<lparr>pending := []\<rparr>\<rparr>;
          s = s\<lparr>status := BUSY_STATE, last_flush := Z_NO_FLUSH\<rparr>
      in s\<lparr>tr := tr_init ops s\<rparr>)"

text \<open>\<^verbatim>\<open>deflate_stream::deflateReset\<close> (deflate.cpp, line 516).\<close>

definition deflateReset :: "trees_ops \<Rightarrow> dstate \<Rightarrow> retcode \<times> dstate" where
  "deflateReset ops s =
     (case deflateResetKeep ops s of
        (ret, s') \<Rightarrow> if ret = Z_OK then (ret, lm_init s') else (ret, s'))"

text \<open>
  \<^verbatim>\<open>deflate_stream::deflateInit2\<close> (deflate.cpp, line 367). The three buffers come from
  \<^verbatim>\<open>malloc\<close>: their contents are whatever the stream held before, and an allocation
  failure is not modelled.
\<close>

definition deflateInit2 ::
  "trees_ops \<Rightarrow> dstate \<Rightarrow> int \<Rightarrow> int \<Rightarrow> int \<Rightarrow> int \<Rightarrow> int \<Rightarrow> retcode \<times> dstate" where
  "deflateInit2 ops strm level0 method windowBits0 memLevel strategy0 =
     (let strm = strm\<lparr>msg := None\<rparr>;
          lvl = (if level0 = Z_DEFAULT_COMPRESSION then 6 else level0);
          windowBits = (if windowBits0 < 0 then - windowBits0 else windowBits0)
      in if memLevel < 1 \<or> memLevel > MAX_MEM_LEVEL \<or> method \<noteq> Z_DEFLATED \<or>
            windowBits < 8 \<or> windowBits > 15 \<or> lvl < 0 \<or> lvl > 9 \<or>
            strategy0 < 0 \<or> strategy0 > Z_FIXED
         then (Z_STREAM_ERROR, strm)
         else
           let windowBits = (if windowBits = 8 then 9 else windowBits);
               s = strm\<lparr>w_bits := word_of_int windowBits\<rparr>;
               s = s\<lparr>w_size := push_bit (nat windowBits) 1\<rparr>;
               s = s\<lparr>w_mask := w_size s - 1\<rparr>;
               s = s\<lparr>hash_bits := word_of_int (memLevel + 7)\<rparr>;
               s = s\<lparr>hash_size := push_bit (unat (hash_bits s)) 1\<rparr>;
               s = s\<lparr>hash_mask := hash_size s - 1\<rparr>;
               s = s\<lparr>hash_shift := (hash_bits s + MIN_MATCH - 1) div MIN_MATCH\<rparr>;
               s = s\<lparr>high_water := 0\<rparr>;
               s = s\<lparr>lit_bufsize := push_bit (nat (memLevel + 6)) 1\<rparr>;
               s = s\<lparr>pending_buf_size := lit_bufsize s * 4\<rparr>;
               s = s\<lparr>level := lvl, strategy := strategy0\<rparr>
           in deflateReset ops s)"

text \<open>
  \<^verbatim>\<open>basic_deflate_stream::upper_bound\<close> (basic_deflate_stream.ipp, line 218), which is
  \<^verbatim>\<open>deflate_stream::deflateBound\<close> (deflate.cpp, line 635) for a non-null stream. All
  arithmetic is that of \<^verbatim>\<open>std::size_t\<close>.
\<close>

definition upper_bound :: "dstate \<Rightarrow> u64 \<Rightarrow> u64" where
  "upper_bound s sourceLen =
     (let complen = sourceLen + drop_bit 3 (sourceLen + 7) + drop_bit 6 (sourceLen + 63) + 5;
          wraplen = 0
      in if w_bits s \<noteq> 15 \<or> hash_bits s \<noteq> 8 + 7 then complen + wraplen
         else sourceLen + drop_bit 12 sourceLen + drop_bit 14 sourceLen +
              drop_bit 25 sourceLen + 13 - 6 + wraplen)"

section \<open>Hash insertion and the sliding window\<close>

text \<open>
  \<^verbatim>\<open>UPDATE_HASH(s,h,c)\<close>: \<^verbatim>\<open>h = ((h << hash_shift) ^ c) & hash_mask\<close>; the function
  returns the new \<open>h\<close>.
\<close>

definition UPDATE_HASH :: "dstate \<Rightarrow> u32 \<Rightarrow> byte \<Rightarrow> u32" where
  "UPDATE_HASH s h c = (push_bit (unat (hash_shift s)) h XOR ucast c) AND hash_mask s"

text \<open>
  \<^verbatim>\<open>INSERT_STRING(s, str, match_head)\<close> (deflate.cpp, line 206): returns the stream and
  \<open>match_head\<close>.
\<close>

definition INSERT_STRING :: "dstate \<Rightarrow> u32 \<Rightarrow> dstate \<times> u32" where
  "INSERT_STRING s str =
     (let s = s\<lparr>ins_h := UPDATE_HASH s (ins_h s) (window s (unat (str + (MIN_MATCH - 1))))\<rparr>;
          match_head = head s (unat (ins_h s));
          s = s\<lparr>prev := (prev s)(unat (str AND w_mask s) := match_head)\<rparr>;
          s = s\<lparr>head := (head s)(unat (ins_h s) := ucast str)\<rparr>
      in (s, ucast match_head))"

text \<open>
  The two loops of the slide (deflate.cpp, lines 270 to 285) run \<open>n\<close> from the table
  size down to 1 and replace the entry at \<open>n - 1\<close> by
  \<^verbatim>\<open>(std::uint16_t)(m >= wsize ? m - wsize : NIL)\<close>. They are do-while loops entered with
  \<open>n > 0\<close>; the model does nothing for \<open>n = 0\<close>, where the source would run off the table.
\<close>

definition rebase :: "u32 \<Rightarrow> u16 \<Rightarrow> u16" where
  "rebase wsize e = (let m = (ucast e :: u32) in ucast (if m \<ge> wsize then m - wsize else NIL))"

fun slide_loop :: "u32 \<Rightarrow> nat \<Rightarrow> (nat \<Rightarrow> u16) \<Rightarrow> (nat \<Rightarrow> u16)" where
  "slide_loop wsize 0 p = p"
| "slide_loop wsize (Suc n) p = slide_loop wsize n (p(n := rebase wsize (p n)))"

text \<open>
  The body of \<^verbatim>\<open>if (s->strstart_ >= wsize+MAX_DIST(s))\<close> in \<^verbatim>\<open>fill_window\<close>
  (deflate.cpp, lines 259 to 285).
\<close>

definition slide_window :: "dstate \<Rightarrow> dstate" where
  "slide_window s =
     (let wsize = w_size s;
          s = s\<lparr>window := (\<lambda>i. if i < unat wsize then window s (i + unat wsize) else window s i)\<rparr>;
          s = s\<lparr>match_start := match_start s - wsize\<rparr>;
          s = s\<lparr>strstart := strstart s - wsize\<rparr>;
          s = s\<lparr>block_start := block_start s - uint wsize\<rparr>;
          s = s\<lparr>head := slide_loop wsize (unat (hash_size s)) (head s)\<rparr>;
          s = s\<lparr>prev := slide_loop wsize (unat wsize) (prev s)\<rparr>
      in s)"

text \<open>
  The first part of the loop body of \<^verbatim>\<open>fill_window\<close> (lines 239 to 287): compute
  \<^verbatim>\<open>more\<close> and slide if needed. The branch under \<^verbatim>\<open>sizeof(int) <= 2\<close> is dead with
  the 32-bit \<^verbatim>\<open>int\<close> of this model. The local \<^verbatim>\<open>more\<close> is called \<open>nmore\<close>.
\<close>

definition fill_window_more :: "dstate \<Rightarrow> dstate \<times> u32" where
  "fill_window_more s =
     (let nmore = window_size s - lookahead s - strstart s
      in if strstart s \<ge> w_size s + MAX_DIST s
         then (slide_window s, nmore + w_size s)
         else (s, nmore))"

text \<open>
  \<^verbatim>\<open>deflate_stream::read_buf\<close> (deflate.cpp, line 835), with the destination given as an
  index into the window. The source reads \<open>len\<close> bytes at \<^verbatim>\<open>next_in\<close> whatever the
  caller's buffer holds; the model reads the list, which is unspecified past its end.
\<close>

definition read_buf :: "dstate \<Rightarrow> nat \<Rightarrow> u32 \<Rightarrow> dstate \<times> u32" where
  "read_buf s buf sz =
     (let len = (if avail_in s > sz then sz else avail_in s)
      in if len = 0 then (s, 0)
         else
           let inp = (case next_in s of None \<Rightarrow> [] | Some bs \<Rightarrow> bs);
               s1 = s\<lparr>avail_in := avail_in s - len\<rparr>;
               s2 = s1\<lparr>window := (\<lambda>i. if buf \<le> i \<and> i < buf + unat len
                                        then inp ! (i - buf) else window s i)\<rparr>;
               s3 = s2\<lparr>next_in := map_option (drop (unat len)) (next_in s)\<rparr>;
               s4 = s3\<lparr>total_in := total_in s + ucast len\<rparr>
           in (s4, len))"

text \<open>
  The hash replay of \<^verbatim>\<open>fill_window\<close> (lines 311 to 319): one pass of the body up to
  \<^verbatim>\<open>s->insert_--\<close>, then the loop.
\<close>

definition fill_insert_step :: "dstate \<Rightarrow> u32 \<Rightarrow> dstate" where
  "fill_insert_step s str =
     (let s = s\<lparr>ins_h := UPDATE_HASH s (ins_h s) (window s (unat (str + MIN_MATCH - 1)))\<rparr>;
          s = s\<lparr>prev := (prev s)(unat (str AND w_mask s) := head s (unat (ins_h s)))\<rparr>;
          s = s\<lparr>head := (head s)(unat (ins_h s) := ucast str)\<rparr>
      in s\<lparr>insert := insert s - 1\<rparr>)"

lemma insert_fill_insert_step: "insert (fill_insert_step s str) = insert s - 1"
  by (simp add: fill_insert_step_def Let_def)

function fill_insert_loop :: "dstate \<Rightarrow> u32 \<Rightarrow> dstate" where
  "fill_insert_loop s str =
     (if insert s = 0 then s
      else
        let s' = fill_insert_step s str
        in if lookahead s' + insert s' < MIN_MATCH then s'
           else fill_insert_loop s' (str + 1))"
  by pat_completeness auto
termination
  by (relation "measure (\<lambda>(s, str). unat (insert s))")
     (auto simp add: insert_fill_insert_step unat_minus_one unat_gt_0)

declare fill_insert_loop.simps [simp del]

text \<open>
  The second part of the loop body (lines 303 to 320): read input behind the lookahead
  and initialise the hash.
\<close>

definition fill_window_read :: "dstate \<Rightarrow> u32 \<Rightarrow> dstate" where
  "fill_window_read s nmore =
     (case read_buf s (unat (strstart s) + unat (lookahead s)) nmore of
        (s, n) \<Rightarrow>
          let s = s\<lparr>lookahead := lookahead s + n\<rparr>
          in if lookahead s + insert s \<ge> MIN_MATCH
             then
               let str = strstart s - insert s;
                   s = s\<lparr>ins_h := ucast (window s (unat str))\<rparr>;
                   s = s\<lparr>ins_h := UPDATE_HASH s (ins_h s) (window s (unat (str + 1)))\<rparr>
               in fill_insert_loop s str
             else s)"

text \<open>
  The do-while loop of \<^verbatim>\<open>fill_window\<close> (lines 238 to 325). A pass that reads nothing
  while input remains repeats forever, so the loop is a partial function: \<open>None\<close> is
  not returning.
\<close>

partial_function (option) fill_window_loop :: "dstate \<Rightarrow> dstate option" where
  "fill_window_loop s =
     (case fill_window_more s of
        (s1, nmore) \<Rightarrow>
          if avail_in s1 = 0 then Some s1
          else
            let s2 = fill_window_read s1 nmore
            in if lookahead s2 < MIN_LOOKAHEAD \<and> avail_in s2 \<noteq> 0
               then fill_window_loop s2
               else Some s2)"

text \<open>
  \<^verbatim>\<open>std::memset\<close> on the window, and the high-water part of \<^verbatim>\<open>fill_window\<close> (lines 334
  to 359).
\<close>

definition memset :: "(nat \<Rightarrow> byte) \<Rightarrow> nat \<Rightarrow> byte \<Rightarrow> nat \<Rightarrow> (nat \<Rightarrow> byte)" where
  "memset m p c n = (\<lambda>i. if p \<le> i \<and> i < p + n then c else m i)"

definition fill_window_high_water :: "dstate \<Rightarrow> dstate" where
  "fill_window_high_water s =
     (if high_water s < window_size s
      then
        let curr = strstart s + lookahead s
        in if high_water s < curr
           then
             let init = window_size s - curr;
                 init = (if init > WIN_INIT then WIN_INIT else init)
             in s\<lparr>window := memset (window s) (unat curr) 0 (unat init),
                   high_water := curr + init\<rparr>
           else if high_water s < curr + WIN_INIT
           then
             let init = curr + WIN_INIT - high_water s;
                 init = (if init > window_size s - high_water s
                         then window_size s - high_water s else init)
             in s\<lparr>window := memset (window s) (unat (high_water s)) 0 (unat init),
                   high_water := high_water s + init\<rparr>
           else s
      else s)"

text \<open>
  \<^verbatim>\<open>deflate_stream::fill_window\<close> (deflate.cpp, line 229).
\<close>

definition fill_window :: "dstate \<Rightarrow> dstate option" where
  "fill_window s = map_option fill_window_high_water (fill_window_loop s)"

section \<open>The match finder\<close>

text \<open>
  The inner comparison loop of \<^verbatim>\<open>longest_match\<close> (deflate.cpp, lines 956 to 961):
  eight comparisons \<^verbatim>\<open>*++scan == *++match\<close> and then the test \<^verbatim>\<open>scan < strend\<close>. The
  pointers are indices into the window; \<open>k\<close> counts the comparisons already made in the
  current group of eight. The result is the final value of \<^verbatim>\<open>scan\<close>.
\<close>

function cmp_loop :: "(nat \<Rightarrow> byte) \<Rightarrow> nat \<Rightarrow> nat \<Rightarrow> nat \<Rightarrow> nat \<Rightarrow> nat" where
  "cmp_loop w scan match strend k =
     (let scan' = scan + 1; match' = match + 1
      in if w scan' \<noteq> w match' then scan'
         else if k < 7 then cmp_loop w scan' match' strend (k + 1)
         else if scan' < strend then cmp_loop w scan' match' strend 0
         else scan')"
  by pat_completeness auto
termination
  by (relation "measure (\<lambda>(w, scan, match, strend, k). 16 * (strend - scan) + (7 - k))") auto

declare cmp_loop.simps [simp del]

text \<open>
  A window read at a signed offset, as in \<^verbatim>\<open>scan[best_len-1]\<close>. A negative index is
  outside the window in the source; the model reads index 0 there.
\<close>

definition widx :: "(nat \<Rightarrow> byte) \<Rightarrow> int \<Rightarrow> byte" where
  "widx w i = w (nat i)"

text \<open>
  One pass of the body of the search loop (lines 928 to 974) for the candidate
  \<open>cur_match\<close>. The result is: whether the loop is left by \<^verbatim>\<open>break\<close>, the stream (with
  \<open>match_start\<close> set on an improvement), \<open>best_len\<close>, \<open>scan_end1\<close>, \<open>scan_end\<close>, and the
  list of the lengths \<open>len\<close> that the pass computed: empty when the candidate is
  rejected by the quick test, one element otherwise. Nothing in the model reads that
  list; it records the candidate lengths found.
\<close>

definition lm_candidate ::
  "dstate \<Rightarrow> u32 \<Rightarrow> int \<Rightarrow> int \<Rightarrow> byte \<Rightarrow> byte \<Rightarrow> bool \<times> dstate \<times> int \<times> byte \<times> byte \<times> int list" where
  "lm_candidate s cur_match best_len nice scan_end1 scan_end =
     (let scan = unat (strstart s);
          match = unat cur_match;
          strend = unat (strstart s) + unat MAX_MATCH
      in if widx (window s) (int match + best_len) \<noteq> scan_end \<or>
            widx (window s) (int match + best_len - 1) \<noteq> scan_end1 \<or>
            window s match \<noteq> window s scan \<or>
            window s (match + 1) \<noteq> window s (scan + 1)
         then (False, s, best_len, scan_end1, scan_end, [])
         else
           let scan' = cmp_loop (window s) (scan + 2) (match + 2) strend 0;
               len = uint MAX_MATCH - (int strend - int scan')
           in if len > best_len
              then
                let s = s\<lparr>match_start := cur_match\<rparr>
                in if len \<ge> nice then (True, s, len, scan_end1, scan_end, [len])
                   else (False, s, len, widx (window s) (int scan + len - 1),
                         widx (window s) (int scan + len), [len])
              else (False, s, best_len, scan_end1, scan_end, [len]))"

text \<open>
  The search loop (lines 927 to 976). It ends because \<^verbatim>\<open>--chain_length != 0\<close> counts
  down, through zero if \<open>chain_length\<close> was 0 on entry.
\<close>

lemma chain_length_decr:
  fixes c :: u32
  assumes "c \<noteq> 1"
  shows "unat (c - 2) < unat (c - 1)"
proof -
  have n: "c - 1 \<noteq> 0" using assms by simp
  have "c - 2 = c - 1 - 1" by simp
  then have "unat (c - 2) = unat (c - 1) - 1"
    using unat_minus_one [OF n] by simp
  moreover have "0 < unat (c - 1)" using n by (simp add: unat_gt_0)
  ultimately show ?thesis by simp
qed

function lm_loop ::
  "dstate \<Rightarrow> u32 \<Rightarrow> u32 \<Rightarrow> int \<Rightarrow> int \<Rightarrow> u32 \<Rightarrow> byte \<Rightarrow> byte \<Rightarrow> dstate \<times> int \<times> int list" where
  "lm_loop s cur_match chain_length best_len nice limit scan_end1 scan_end =
     (case lm_candidate s cur_match best_len nice scan_end1 scan_end of
        (brk, s1, best1, se1, se, ls) \<Rightarrow>
          if brk then (s1, best1, ls)
          else
            let cur' = (ucast (prev s1 (unat (cur_match AND w_mask s1))) :: u32)
            in if cur' > limit \<and> chain_length - 1 \<noteq> 0
               then
                 (case lm_loop s1 cur' (chain_length - 1) best1 nice limit se1 se of
                    (s2, best2, ls2) \<Rightarrow> (s2, best2, ls @ ls2))
               else (s1, best1, ls))"
  by pat_completeness auto
termination
  by (relation "measure (\<lambda>(s, cur, chain, r). unat (chain - 1))")
     (auto simp add: chain_length_decr)

declare lm_loop.simps [simp del]

text \<open>
  \<^verbatim>\<open>deflate_stream::longest_match\<close> (deflate.cpp, line 890): the set-up and the search
  loop, then the final clamp to the lookahead.
\<close>

definition lm_search :: "dstate \<Rightarrow> u32 \<Rightarrow> dstate \<times> int \<times> int list" where
  "lm_search s cur_match =
     (let chain_length = max_chain_length s;
          scan = int (unat (strstart s));
          best_len = sint (prev_length s);
          nice = nice_match s;
          limit = (if strstart s > MAX_DIST s then strstart s - MAX_DIST s else NIL);
          scan_end1 = widx (window s) (scan + best_len - 1);
          scan_end = widx (window s) (scan + best_len);
          chain_length = (if prev_length s \<ge> good_match s
                          then drop_bit 2 chain_length else chain_length);
          nice = (if (word_of_int nice :: u32) > lookahead s then sint (lookahead s) else nice)
      in lm_loop s cur_match chain_length best_len nice limit scan_end1 scan_end)"

definition longest_match :: "dstate \<Rightarrow> u32 \<Rightarrow> dstate \<times> u32" where
  "longest_match s cur_match =
     (case lm_search s cur_match of
        (s', best_len, ls) \<Rightarrow>
          if (word_of_int best_len :: u32) \<le> lookahead s' then (s', word_of_int best_len)
          else (s', lookahead s'))"

section \<open>Output and the tally\<close>

text \<open>
  How a pass of an engine's loop ends: the function returns a block state, the loop is
  left by \<^verbatim>\<open>break\<close>, or the loop goes on.
\<close>

datatype ctl = Return block_state dstate | Break dstate | Continue dstate

text \<open>
  \<^verbatim>\<open>deflate_stream::flush_pending\<close> (deflate.cpp, line 669). Copying to a null
  \<^verbatim>\<open>next_out\<close> is undefined in the source; the model leaves \<open>None\<close> as it is.
\<close>

definition flush_pending :: "trees_ops \<Rightarrow> dstate \<Rightarrow> dstate" where
  "flush_pending ops strm =
     (let s = strm\<lparr>tr := tr_flush_bits ops strm\<rparr>;
          len = min (length (pending (tr s))) (unat (avail_out s))
      in if len = 0 then s
         else
           let s1 = s\<lparr>next_out := map_option (\<lambda>out. out @ take len (pending (tr s))) (next_out s)\<rparr>;
               s2 = s1\<lparr>total_out := total_out s + of_nat len\<rparr>;
               s3 = s2\<lparr>avail_out := avail_out s - of_nat len\<rparr>
           in s3\<lparr>tr := (tr s)\<lparr>pending := drop len (pending (tr s))\<rparr>\<rparr>)"

text \<open>
  The macros \<^verbatim>\<open>_tr_tally_lit\<close> and \<^verbatim>\<open>_tr_tally_dist\<close> (deflate.cpp, lines 99 to 115, the
  build without \<^verbatim>\<open>DEBUG\<close>): the stream after the tally and the value of \<^verbatim>\<open>flush\<close>.
\<close>

definition tr_tally_lit :: "dstate \<Rightarrow> byte \<Rightarrow> dstate \<times> bool" where
  "tr_tally_lit s c =
     (let t = tr s;
          t = t\<lparr>d_buf := (d_buf t)(unat (last_lit t) := 0)\<rparr>;
          t = t\<lparr>l_buf := (l_buf t)(unat (last_lit t) := c)\<rparr>;
          t = t\<lparr>last_lit := last_lit t + 1\<rparr>;
          t = t\<lparr>dyn_ltree := (dyn_ltree t)(unat c := dyn_ltree t (unat c) + 1)\<rparr>
      in (s\<lparr>tr := t\<rparr>, last_lit t = lit_bufsize s - 1))"

definition tr_tally_dist :: "trees_ops \<Rightarrow> dstate \<Rightarrow> u32 \<Rightarrow> u32 \<Rightarrow> dstate \<times> bool" where
  "tr_tally_dist ops s distance length0 =
     (let len = (ucast length0 :: byte);
          dist = (ucast distance :: u16);
          t = tr s;
          t = t\<lparr>d_buf := (d_buf t)(unat (last_lit t) := dist)\<rparr>;
          t = t\<lparr>l_buf := (l_buf t)(unat (last_lit t) := len)\<rparr>;
          t = t\<lparr>last_lit := last_lit t + 1\<rparr>;
          dist = dist - 1;
          lc = length_code ops len + LITERALS + 1;
          t = t\<lparr>dyn_ltree := (dyn_ltree t)(lc := dyn_ltree t lc + 1)\<rparr>;
          dc = d_code ops dist;
          t = t\<lparr>dyn_dtree := (dyn_dtree t)(dc := dyn_dtree t dc + 1)\<rparr>
      in (s\<lparr>tr := t\<rparr>, last_lit t = lit_bufsize s - 1))"

text \<open>
  The macros \<^verbatim>\<open>FLUSH_BLOCK_ONLY\<close> and \<^verbatim>\<open>FLUSH_BLOCK\<close> (deflate.cpp, lines 1014 to 1029).
  \<^verbatim>\<open>FLUSH_BLOCK\<close> returns from the engine when the output is full.
\<close>

definition FLUSH_BLOCK_ONLY :: "trees_ops \<Rightarrow> dstate \<Rightarrow> bool \<Rightarrow> dstate" where
  "FLUSH_BLOCK_ONLY ops s is_last =
     (let buf = (if block_start s \<ge> 0 then Some (nat (block_start s mod 2 ^ 32)) else None);
          stored_len = (word_of_int (uint (strstart s) - block_start s) :: u32);
          s = s\<lparr>tr := tr_flush_block ops s buf stored_len is_last\<rparr>;
          s = s\<lparr>block_start := uint (strstart s)\<rparr>
      in flush_pending ops s)"

definition FLUSH_BLOCK :: "trees_ops \<Rightarrow> dstate \<Rightarrow> bool \<Rightarrow> ctl" where
  "FLUSH_BLOCK ops s is_last =
     (let s = FLUSH_BLOCK_ONLY ops s is_last
      in if avail_out s = 0 then Return (if is_last then finish_started else need_more) s
         else Continue s)"

text \<open>
  The end of every engine after its loop: \<^verbatim>\<open>FLUSH_BLOCK(s, 1)\<close> and
  \<^verbatim>\<open>finish_done\<close> on \<^verbatim>\<open>Z_FINISH\<close>, otherwise \<^verbatim>\<open>FLUSH_BLOCK(s, 0)\<close> if the block holds
  data, and \<^verbatim>\<open>block_done\<close>. The test for data is \<^verbatim>\<open>(long)strstart > block_start\<close> in
  \<^verbatim>\<open>deflate_stored\<close> and \<^verbatim>\<open>last_lit\<close> in the other engines.
\<close>

definition finish_blocks :: "trees_ops \<Rightarrow> dstate \<Rightarrow> int \<Rightarrow> bool \<Rightarrow> block_state \<times> dstate" where
  "finish_blocks ops s flush more_data =
     (if flush = Z_FINISH
      then (case FLUSH_BLOCK ops s True of
              Return r s' \<Rightarrow> (r, s') | Continue s' \<Rightarrow> (finish_done, s') | Break s' \<Rightarrow> (finish_done, s'))
      else if more_data
      then (case FLUSH_BLOCK ops s False of
              Return r s' \<Rightarrow> (r, s') | Continue s' \<Rightarrow> (block_done, s') | Break s' \<Rightarrow> (block_done, s'))
      else (block_done, s))"

section \<open>The stored engine\<close>

text \<open>
  \<^verbatim>\<open>deflate_stream::deflate_stored\<close> (deflate.cpp, line 1040). First
  \<^verbatim>\<open>max_block_size\<close> (lines 1047 to 1052), then the two halves of the loop body: filling
  the window (lines 1057 to 1066) and closing blocks (lines 1069 to 1085), the loop, and
  the statements after it (lines 1087 to 1094).
\<close>

definition stored_max_block_size :: "dstate \<Rightarrow> u32" where
  "stored_max_block_size s =
     (let max_block_size = 0xffff
      in if max_block_size > pending_buf_size s - 5 then pending_buf_size s - 5
         else max_block_size)"

definition deflate_stored_fill :: "dstate \<Rightarrow> int \<Rightarrow> ctl option" where
  "deflate_stored_fill s flush =
     (if lookahead s \<le> 1
      then
        (case fill_window s of
           None \<Rightarrow> None
         | Some s \<Rightarrow>
             if lookahead s = 0 \<and> flush = Z_NO_FLUSH then Some (Return need_more s)
             else if lookahead s = 0 then Some (Break s)
             else Some (Continue s))
      else Some (Continue s))"

definition deflate_stored_copy :: "trees_ops \<Rightarrow> dstate \<Rightarrow> u32 \<Rightarrow> ctl" where
  "deflate_stored_copy ops s max_block_size =
     (let s = s\<lparr>strstart := strstart s + lookahead s\<rparr>;
          s = s\<lparr>lookahead := 0\<rparr>;
          max_start = (word_of_int (block_start s + uint max_block_size) :: u32);
          c = (if strstart s = 0 \<or> strstart s \<ge> max_start
               then
                 let s = s\<lparr>lookahead := strstart s - max_start\<rparr>;
                     s = s\<lparr>strstart := max_start\<rparr>
                 in FLUSH_BLOCK ops s False
               else Continue s)
      in case c of
           Continue s \<Rightarrow>
             if strstart s - word_of_int (block_start s) \<ge> MAX_DIST s
             then FLUSH_BLOCK ops s False
             else Continue s
         | other \<Rightarrow> other)"

partial_function (option) deflate_stored_loop ::
  "trees_ops \<Rightarrow> dstate \<Rightarrow> int \<Rightarrow> u32 \<Rightarrow> ctl option" where
  "deflate_stored_loop ops s flush max_block_size =
     (case deflate_stored_fill s flush of
        None \<Rightarrow> None
      | Some (Continue s1) \<Rightarrow>
          (case deflate_stored_copy ops s1 max_block_size of
             Continue s2 \<Rightarrow> deflate_stored_loop ops s2 flush max_block_size
           | other \<Rightarrow> Some other)
      | Some other \<Rightarrow> Some other)"

definition deflate_stored_tail :: "trees_ops \<Rightarrow> dstate \<Rightarrow> int \<Rightarrow> block_state \<times> dstate" where
  "deflate_stored_tail ops s flush =
     (let s = s\<lparr>insert := 0\<rparr>
      in finish_blocks ops s flush (uint (strstart s) > block_start s))"

definition deflate_stored :: "trees_ops \<Rightarrow> dstate \<Rightarrow> int \<Rightarrow> (block_state \<times> dstate) option" where
  "deflate_stored ops s flush =
     (case deflate_stored_loop ops s flush (stored_max_block_size s) of
        None \<Rightarrow> None
      | Some (Return r s') \<Rightarrow> Some (r, s')
      | Some (Break s') \<Rightarrow> Some (deflate_stored_tail ops s' flush)
      | Some (Continue s') \<Rightarrow> Some (deflate_stored_tail ops s' flush))"


section \<open>The fast engine\<close>

text \<open>
  The start of the loop body of \<^verbatim>\<open>deflate_fast\<close> and \<^verbatim>\<open>deflate_slow\<close> (lines 1116 to
  1122 and 1212 to 1218).
\<close>

definition lookahead_fill :: "dstate \<Rightarrow> int \<Rightarrow> ctl option" where
  "lookahead_fill s flush =
     (if lookahead s < MIN_LOOKAHEAD
      then
        (case fill_window s of
           None \<Rightarrow> None
         | Some s \<Rightarrow>
             if lookahead s < MIN_LOOKAHEAD \<and> flush = Z_NO_FLUSH then Some (Return need_more s)
             else if lookahead s = 0 then Some (Break s)
             else Some (Continue s))
      else Some (Continue s))"

text \<open>
  \<^verbatim>\<open>hash_head = NIL; if (s->lookahead_ >= MIN_MATCH) INSERT_STRING(s, s->strstart_, hash_head)\<close>.
\<close>

definition insert_at_strstart :: "dstate \<Rightarrow> dstate \<times> u32" where
  "insert_at_strstart s =
     (let hash_head = NIL
      in if lookahead s \<ge> MIN_MATCH then INSERT_STRING s (strstart s) else (s, hash_head))"

lemma match_length_INSERT_STRING [simp]:
  "match_length (fst (INSERT_STRING s str)) = match_length s"
  "prev_length (fst (INSERT_STRING s str)) = prev_length s"
  "strstart (fst (INSERT_STRING s str)) = strstart s"
  by (simp_all add: INSERT_STRING_def Let_def)

text \<open>
  The do-while loop of lines 1157 to 1163, counting \<^verbatim>\<open>match_length_\<close> down.
\<close>

function fast_insert_loop :: "dstate \<Rightarrow> dstate" where
  "fast_insert_loop s =
     (let s = s\<lparr>strstart := strstart s + 1\<rparr>;
          s = fst (INSERT_STRING s (strstart s));
          s = s\<lparr>match_length := match_length s - 1\<rparr>
      in if match_length s \<noteq> 0 then fast_insert_loop s else s)"
  by pat_completeness auto
termination
  by (relation "measure (\<lambda>s. unat (match_length s - 1))")
     (auto simp add: Let_def chain_length_decr)

declare fast_insert_loop.simps [simp del]

text \<open>
  The rest of the loop body of \<^verbatim>\<open>deflate_fast\<close> (lines 1127 to 1182).
\<close>

definition deflate_fast_body :: "trees_ops \<Rightarrow> dstate \<Rightarrow> ctl" where
  "deflate_fast_body ops s =
     (case insert_at_strstart s of
        (s, hash_head) \<Rightarrow>
          let s = (if hash_head \<noteq> NIL \<and> strstart s - hash_head \<le> MAX_DIST s
                   then (case longest_match s hash_head of
                           (s, len) \<Rightarrow> s\<lparr>match_length := len\<rparr>)
                   else s);
              (s, bflush) =
                (if match_length s \<ge> MIN_MATCH
                 then
                   (case tr_tally_dist ops s (strstart s - match_start s)
                           (match_length s - MIN_MATCH) of
                      (s, bflush) \<Rightarrow>
                        let s = s\<lparr>lookahead := lookahead s - match_length s\<rparr>
                        in if match_length s \<le> max_lazy_match s \<and> lookahead s \<ge> MIN_MATCH
                           then
                             let s = s\<lparr>match_length := match_length s - 1\<rparr>;
                                 s = fast_insert_loop s
                             in (s\<lparr>strstart := strstart s + 1\<rparr>, bflush)
                           else
                             let s = s\<lparr>strstart := strstart s + match_length s\<rparr>;
                                 s = s\<lparr>match_length := 0\<rparr>;
                                 s = s\<lparr>ins_h := ucast (window s (unat (strstart s)))\<rparr>;
                                 s = s\<lparr>ins_h := UPDATE_HASH s (ins_h s)
                                                  (window s (unat (strstart s + 1)))\<rparr>
                             in (s, bflush))
                 else
                   (case tr_tally_lit s (window s (unat (strstart s))) of
                      (s, bflush) \<Rightarrow>
                        let s = s\<lparr>lookahead := lookahead s - 1\<rparr>
                        in (s\<lparr>strstart := strstart s + 1\<rparr>, bflush)))
          in if bflush then FLUSH_BLOCK ops s False else Continue s)"

text \<open>
  \<^verbatim>\<open>s->insert_ = s->strstart_ < MIN_MATCH-1 ? s->strstart_ : MIN_MATCH-1\<close>, then the loop
  and \<^verbatim>\<open>deflate_stream::deflate_fast\<close> (deflate.cpp, line 1104).
\<close>

definition set_insert_min :: "dstate \<Rightarrow> dstate" where
  "set_insert_min s =
     s\<lparr>insert := (if strstart s < MIN_MATCH - 1 then strstart s else MIN_MATCH - 1)\<rparr>"

partial_function (option) deflate_fast_loop :: "trees_ops \<Rightarrow> dstate \<Rightarrow> int \<Rightarrow> ctl option" where
  "deflate_fast_loop ops s flush =
     (case lookahead_fill s flush of
        None \<Rightarrow> None
      | Some (Continue s1) \<Rightarrow>
          (case deflate_fast_body ops s1 of
             Continue s2 \<Rightarrow> deflate_fast_loop ops s2 flush
           | other \<Rightarrow> Some other)
      | Some other \<Rightarrow> Some other)"

definition deflate_fast_tail :: "trees_ops \<Rightarrow> dstate \<Rightarrow> int \<Rightarrow> block_state \<times> dstate" where
  "deflate_fast_tail ops s flush =
     (let s = set_insert_min s
      in finish_blocks ops s flush (last_lit (tr s) \<noteq> 0))"

definition deflate_fast :: "trees_ops \<Rightarrow> dstate \<Rightarrow> int \<Rightarrow> (block_state \<times> dstate) option" where
  "deflate_fast ops s flush =
     (case deflate_fast_loop ops s flush of
        None \<Rightarrow> None
      | Some (Return r s') \<Rightarrow> Some (r, s')
      | Some (Break s') \<Rightarrow> Some (deflate_fast_tail ops s' flush)
      | Some (Continue s') \<Rightarrow> Some (deflate_fast_tail ops s' flush))"

section \<open>The lazy engine\<close>

text \<open>
  \<^verbatim>\<open>deflate_stream::deflate_slow\<close> (deflate.cpp, line 1199). The loop body after the
  filling of the window has two parts. The first (lines 1223 to 1254) inserts the string
  at \<open>strstart\<close>, saves the current match as the previous one and searches.
\<close>

definition deflate_slow_search :: "dstate \<Rightarrow> dstate" where
  "deflate_slow_search s =
     (case insert_at_strstart s of
        (s, hash_head) \<Rightarrow>
          let s = s\<lparr>prev_length := match_length s\<rparr>;
              s = s\<lparr>prev_match := match_start s\<rparr>;
              s = s\<lparr>match_length := MIN_MATCH - 1\<rparr>
          in if hash_head \<noteq> NIL \<and> prev_length s < max_lazy_match s \<and>
                strstart s - hash_head \<le> MAX_DIST s
             then
               (case longest_match s hash_head of
                  (s, len) \<Rightarrow>
                    let s = s\<lparr>match_length := len\<rparr>
                    in if match_length s \<le> 5 \<and>
                          (strategy s = Z_FILTERED \<or>
                           (match_length s = MIN_MATCH \<and>
                            strstart s - match_start s > TOO_FAR))
                       then s\<lparr>match_length := MIN_MATCH - 1\<rparr>
                       else s)
             else s)"

text \<open>
  The do-while loop of lines 1274 to 1278, counting \<^verbatim>\<open>prev_length_\<close> down.
\<close>

function slow_insert_loop :: "dstate \<Rightarrow> u32 \<Rightarrow> dstate" where
  "slow_insert_loop s max_insert =
     (let s = s\<lparr>strstart := strstart s + 1\<rparr>;
          s = (if strstart s \<le> max_insert then fst (INSERT_STRING s (strstart s)) else s);
          s = s\<lparr>prev_length := prev_length s - 1\<rparr>
      in if prev_length s \<noteq> 0 then slow_insert_loop s max_insert else s)"
  by pat_completeness auto
termination
  by (relation "measure (\<lambda>(s, m). unat (prev_length s - 1))")
     (auto simp add: Let_def chain_length_decr split: if_splits)

declare slow_insert_loop.simps [simp del]

text \<open>
  The branch that commits the previous match, up to \<^verbatim>\<open>s->strstart_++\<close> (lines 1259 to
  1281): the stream and \<^verbatim>\<open>bflush\<close>.
\<close>

definition deflate_slow_commit :: "trees_ops \<Rightarrow> dstate \<Rightarrow> dstate \<times> bool" where
  "deflate_slow_commit ops s =
     (let max_insert = strstart s + lookahead s - MIN_MATCH
      in case tr_tally_dist ops s (strstart s - 1 - prev_match s) (prev_length s - MIN_MATCH) of
           (s, bflush) \<Rightarrow>
             let s = s\<lparr>lookahead := lookahead s - (prev_length s - 1)\<rparr>;
                 s = s\<lparr>prev_length := prev_length s - 2\<rparr>;
                 s = slow_insert_loop s max_insert;
                 s = s\<lparr>match_available := 0\<rparr>;
                 s = s\<lparr>match_length := MIN_MATCH - 1\<rparr>;
                 s = s\<lparr>strstart := strstart s + 1\<rparr>
             in (s, bflush))"

text \<open>
  The second part of the loop body: the decision (lines 1258 to 1305).
\<close>

definition deflate_slow_decide :: "trees_ops \<Rightarrow> dstate \<Rightarrow> ctl" where
  "deflate_slow_decide ops s =
     (if prev_length s \<ge> MIN_MATCH \<and> match_length s \<le> prev_length s
      then
        (case deflate_slow_commit ops s of
           (s, bflush) \<Rightarrow> if bflush then FLUSH_BLOCK ops s False else Continue s)
      else if match_available s \<noteq> 0
      then
        (case tr_tally_lit s (window s (unat (strstart s - 1))) of
           (s, bflush) \<Rightarrow>
             let s = (if bflush then FLUSH_BLOCK_ONLY ops s False else s);
                 s = s\<lparr>strstart := strstart s + 1\<rparr>;
                 s = s\<lparr>lookahead := lookahead s - 1\<rparr>
             in if avail_out s = 0 then Return need_more s else Continue s)
      else
        (let s = s\<lparr>match_available := 1\<rparr>;
             s = s\<lparr>strstart := strstart s + 1\<rparr>;
             s = s\<lparr>lookahead := lookahead s - 1\<rparr>
         in Continue s))"

text \<open>
  The loop, the statements after it (lines 1308 to 1320) and the engine.
\<close>

partial_function (option) deflate_slow_loop :: "trees_ops \<Rightarrow> dstate \<Rightarrow> int \<Rightarrow> ctl option" where
  "deflate_slow_loop ops s flush =
     (case lookahead_fill s flush of
        None \<Rightarrow> None
      | Some (Continue s1) \<Rightarrow>
          (case deflate_slow_decide ops (deflate_slow_search s1) of
             Continue s2 \<Rightarrow> deflate_slow_loop ops s2 flush
           | other \<Rightarrow> Some other)
      | Some other \<Rightarrow> Some other)"

definition deflate_slow_tail :: "trees_ops \<Rightarrow> dstate \<Rightarrow> int \<Rightarrow> block_state \<times> dstate" where
  "deflate_slow_tail ops s flush =
     (let s = (if match_available s \<noteq> 0
               then (fst (tr_tally_lit s (window s (unat (strstart s - 1)))))\<lparr>match_available := 0\<rparr>
               else s);
          s = set_insert_min s
      in finish_blocks ops s flush (last_lit (tr s) \<noteq> 0))"

definition deflate_slow :: "trees_ops \<Rightarrow> dstate \<Rightarrow> int \<Rightarrow> (block_state \<times> dstate) option" where
  "deflate_slow ops s flush =
     (case deflate_slow_loop ops s flush of
        None \<Rightarrow> None
      | Some (Return r s') \<Rightarrow> Some (r, s')
      | Some (Break s') \<Rightarrow> Some (deflate_slow_tail ops s' flush)
      | Some (Continue s') \<Rightarrow> Some (deflate_slow_tail ops s' flush))"


section \<open>The run-length and the Huffman-only engines\<close>

text \<open>
  \<^verbatim>\<open>deflate_stream::deflate_rle\<close> (deflate.cpp, line 1328). The scan loop of lines 1355 to
  1360 compares the previous byte with \<^verbatim>\<open>*++scan\<close> eight times and then tests
  \<^verbatim>\<open>scan < strend\<close>; the local \<^verbatim>\<open>prev\<close> is called \<open>prv\<close>.
\<close>

function rle_loop :: "(nat \<Rightarrow> byte) \<Rightarrow> byte \<Rightarrow> nat \<Rightarrow> nat \<Rightarrow> nat \<Rightarrow> nat" where
  "rle_loop w prv scan strend k =
     (let scan' = scan + 1
      in if prv \<noteq> w scan' then scan'
         else if k < 7 then rle_loop w prv scan' strend (k + 1)
         else if scan' < strend then rle_loop w prv scan' strend 0
         else scan')"
  by pat_completeness auto
termination
  by (relation "measure (\<lambda>(w, prv, scan, strend, k). 16 * (strend - scan) + (7 - k))") auto

declare rle_loop.simps [simp del]

definition rle_fill :: "dstate \<Rightarrow> int \<Rightarrow> ctl option" where
  "rle_fill s flush =
     (if lookahead s \<le> MAX_MATCH
      then
        (case fill_window s of
           None \<Rightarrow> None
         | Some s \<Rightarrow>
             if lookahead s \<le> MAX_MATCH \<and> flush = Z_NO_FLUSH then Some (Return need_more s)
             else if lookahead s = 0 then Some (Break s)
             else Some (Continue s))
      else Some (Continue s))"

definition rle_run_length :: "dstate \<Rightarrow> dstate" where
  "rle_run_length s =
     (let s = s\<lparr>match_length := 0\<rparr>
      in if lookahead s \<ge> MIN_MATCH \<and> strstart s > 0
         then
           let scan = unat (strstart s) - 1;
               prv = window s scan
           in if prv = window s (scan + 1) \<and> prv = window s (scan + 2) \<and>
                 prv = window s (scan + 3)
              then
                let strend = unat (strstart s) + unat MAX_MATCH;
                    scan' = rle_loop (window s) prv (scan + 3) strend 0;
                    s = s\<lparr>match_length := word_of_int (uint MAX_MATCH - (int strend - int scan'))\<rparr>
                in if match_length s > lookahead s then s\<lparr>match_length := lookahead s\<rparr> else s
              else s
         else s)"

definition deflate_rle_body :: "trees_ops \<Rightarrow> dstate \<Rightarrow> ctl" where
  "deflate_rle_body ops s =
     (let s = rle_run_length s;
          (s, bflush) =
            (if match_length s \<ge> MIN_MATCH
             then
               (case tr_tally_dist ops s 1 (match_length s - MIN_MATCH) of
                  (s, bflush) \<Rightarrow>
                    let s = s\<lparr>lookahead := lookahead s - match_length s\<rparr>;
                        s = s\<lparr>strstart := strstart s + match_length s\<rparr>
                    in (s\<lparr>match_length := 0\<rparr>, bflush))
             else
               (case tr_tally_lit s (window s (unat (strstart s))) of
                  (s, bflush) \<Rightarrow>
                    let s = s\<lparr>lookahead := lookahead s - 1\<rparr>
                    in (s\<lparr>strstart := strstart s + 1\<rparr>, bflush)))
      in if bflush then FLUSH_BLOCK ops s False else Continue s)"

partial_function (option) deflate_rle_loop :: "trees_ops \<Rightarrow> dstate \<Rightarrow> int \<Rightarrow> ctl option" where
  "deflate_rle_loop ops s flush =
     (case rle_fill s flush of
        None \<Rightarrow> None
      | Some (Continue s1) \<Rightarrow>
          (case deflate_rle_body ops s1 of
             Continue s2 \<Rightarrow> deflate_rle_loop ops s2 flush
           | other \<Rightarrow> Some other)
      | Some other \<Rightarrow> Some other)"

text \<open>
  The statements after the loop of \<^verbatim>\<open>deflate_rle\<close> and \<^verbatim>\<open>deflate_huff\<close>.
\<close>

definition literal_tail :: "trees_ops \<Rightarrow> dstate \<Rightarrow> int \<Rightarrow> block_state \<times> dstate" where
  "literal_tail ops s flush =
     (let s = s\<lparr>insert := 0\<rparr>
      in finish_blocks ops s flush (last_lit (tr s) \<noteq> 0))"

definition deflate_rle :: "trees_ops \<Rightarrow> dstate \<Rightarrow> int \<Rightarrow> (block_state \<times> dstate) option" where
  "deflate_rle ops s flush =
     (case deflate_rle_loop ops s flush of
        None \<Rightarrow> None
      | Some (Return r s') \<Rightarrow> Some (r, s')
      | Some (Break s') \<Rightarrow> Some (literal_tail ops s' flush)
      | Some (Continue s') \<Rightarrow> Some (literal_tail ops s' flush))"

text \<open>
  \<^verbatim>\<open>deflate_stream::deflate_huff\<close> (deflate.cpp, line 1400).
\<close>

definition huff_fill :: "dstate \<Rightarrow> int \<Rightarrow> ctl option" where
  "huff_fill s flush =
     (if lookahead s = 0
      then
        (case fill_window s of
           None \<Rightarrow> None
         | Some s \<Rightarrow>
             if lookahead s = 0
             then (if flush = Z_NO_FLUSH then Some (Return need_more s) else Some (Break s))
             else Some (Continue s))
      else Some (Continue s))"

definition deflate_huff_body :: "trees_ops \<Rightarrow> dstate \<Rightarrow> ctl" where
  "deflate_huff_body ops s =
     (let s = s\<lparr>match_length := 0\<rparr>
      in case tr_tally_lit s (window s (unat (strstart s))) of
           (s, bflush) \<Rightarrow>
             let s = s\<lparr>lookahead := lookahead s - 1\<rparr>;
                 s = s\<lparr>strstart := strstart s + 1\<rparr>
             in if bflush then FLUSH_BLOCK ops s False else Continue s)"

partial_function (option) deflate_huff_loop :: "trees_ops \<Rightarrow> dstate \<Rightarrow> int \<Rightarrow> ctl option" where
  "deflate_huff_loop ops s flush =
     (case huff_fill s flush of
        None \<Rightarrow> None
      | Some (Continue s1) \<Rightarrow>
          (case deflate_huff_body ops s1 of
             Continue s2 \<Rightarrow> deflate_huff_loop ops s2 flush
           | other \<Rightarrow> Some other)
      | Some other \<Rightarrow> Some other)"

definition deflate_huff :: "trees_ops \<Rightarrow> dstate \<Rightarrow> int \<Rightarrow> (block_state \<times> dstate) option" where
  "deflate_huff ops s flush =
     (case deflate_huff_loop ops s flush of
        None \<Rightarrow> None
      | Some (Return r s') \<Rightarrow> Some (r, s')
      | Some (Break s') \<Rightarrow> Some (literal_tail ops s' flush)
      | Some (Continue s') \<Rightarrow> Some (literal_tail ops s' flush))"

section \<open>The session driver\<close>

text \<open>
  The macro \<^verbatim>\<open>RANK\<close> (deflate.cpp, line 185).

  Modelled from the spec: the macro \<^verbatim>\<open>ERR_RETURN\<close> of the missing header. As in zlib it
  stores the message of the error in \<^verbatim>\<open>strm->msg\<close> and returns the error; the model
  stores the error code.
\<close>

definition RANK :: "int \<Rightarrow> int" where
  "RANK f = push_bit 1 f - (if f > 4 then 9 else 0)"

definition ERR_RETURN :: "dstate \<Rightarrow> retcode \<Rightarrow> retcode \<times> dstate" where
  "ERR_RETURN strm err = (err, strm\<lparr>msg := Some err\<rparr>)"

text \<open>
  The dispatch to the engine (deflate.cpp, lines 749 to 751).
\<close>

definition run_engine :: "trees_ops \<Rightarrow> dstate \<Rightarrow> int \<Rightarrow> (block_state \<times> dstate) option" where
  "run_engine ops s flush =
     (if strategy s = Z_HUFFMAN_ONLY then deflate_huff ops s flush
      else if strategy s = Z_RLE then deflate_rle ops s flush
      else (case func (configuration_table (level s)) of
              Stored \<Rightarrow> deflate_stored ops s flush
            | Fast \<Rightarrow> deflate_fast ops s flush
            | Slow \<Rightarrow> deflate_slow ops s flush))"

text \<open>
  What \<^verbatim>\<open>deflate\<close> does when the engine returns \<^verbatim>\<open>block_done\<close>, up to
  \<^verbatim>\<open>flush_pending\<close> (lines 770 to 786).
\<close>

definition deflate_block_done :: "trees_ops \<Rightarrow> dstate \<Rightarrow> int \<Rightarrow> dstate" where
  "deflate_block_done ops s flush =
     (let s =
        (if flush = Z_PARTIAL_FLUSH then s\<lparr>tr := tr_align ops s\<rparr>
         else if flush \<noteq> Z_BLOCK
         then
           let s = s\<lparr>tr := tr_stored_block ops s None 0 False\<rparr>
           in if flush = Z_FULL_FLUSH
              then
                let s = CLEAR_HASH s
                in if lookahead s = 0
                   then s\<lparr>strstart := 0, block_start := 0, insert := 0\<rparr>
                   else s
              else s
         else s)
      in flush_pending ops s)"

text \<open>
  \<^verbatim>\<open>deflate_stream::deflate\<close> (deflate.cpp, line 693): first the part from line 738 on,
  which runs the engine, then the whole function.
\<close>

definition deflate_compress :: "trees_ops \<Rightarrow> dstate \<Rightarrow> int \<Rightarrow> (retcode \<times> dstate) option" where
  "deflate_compress ops s flush =
     (if status s = FINISH_STATE \<and> avail_in s \<noteq> 0 then Some (ERR_RETURN s Z_BUF_ERROR)
      else if avail_in s \<noteq> 0 \<or> lookahead s \<noteq> 0 \<or>
              (flush \<noteq> Z_NO_FLUSH \<and> status s \<noteq> FINISH_STATE)
      then
        (case run_engine ops s flush of
           None \<Rightarrow> None
         | Some (bstate, s) \<Rightarrow>
             let s = (if bstate = finish_started \<or> bstate = finish_done
                      then s\<lparr>status := FINISH_STATE\<rparr> else s)
             in if bstate = need_more \<or> bstate = finish_started
                then Some (Z_OK, if avail_out s = 0 then s\<lparr>last_flush := - 1\<rparr> else s)
                else if bstate = block_done
                then
                  let s = deflate_block_done ops s flush
                  in if avail_out s = 0 then Some (Z_OK, s\<lparr>last_flush := - 1\<rparr>)
                     else Some (if flush \<noteq> Z_FINISH then Z_OK else Z_STREAM_END, s)
                else Some (if flush \<noteq> Z_FINISH then Z_OK else Z_STREAM_END, s))
      else Some (if flush \<noteq> Z_FINISH then Z_OK else Z_STREAM_END, s))"

definition deflate :: "trees_ops \<Rightarrow> dstate \<Rightarrow> int \<Rightarrow> (retcode \<times> dstate) option" where
  "deflate ops strm flush =
     (if flush > Z_BLOCK \<or> flush < 0 then Some (Z_STREAM_ERROR, strm)
      else if next_out strm = None \<or> (next_in strm = None \<and> avail_in strm \<noteq> 0) \<or>
              (status strm = FINISH_STATE \<and> flush \<noteq> Z_FINISH)
      then Some (ERR_RETURN strm Z_STREAM_ERROR)
      else if avail_out strm = 0 then Some (ERR_RETURN strm Z_BUF_ERROR)
      else
        let old_flush = last_flush strm;
            s = strm\<lparr>last_flush := flush\<rparr>
        in if pending (tr s) \<noteq> []
           then
             let s = flush_pending ops s
             in if avail_out s = 0 then Some (Z_OK, s\<lparr>last_flush := - 1\<rparr>)
                else deflate_compress ops s flush
           else if avail_in s = 0 \<and> RANK flush \<le> RANK old_flush \<and> flush \<noteq> Z_FINISH
           then Some (ERR_RETURN s Z_BUF_ERROR)
           else deflate_compress ops s flush)"

section \<open>Dictionary priming\<close>

text \<open>
  \<^verbatim>\<open>deflate_stream::deflateSetDictionary\<close> (deflate.cpp, line 438): the body and the
  do-while loop of lines 472 to 477, the while loop of lines 469 to 481, and the
  function. The dictionary is the list of bytes at \<^verbatim>\<open>dictionary\<close>.
\<close>

definition dict_link :: "dstate \<Rightarrow> u32 \<Rightarrow> dstate" where
  "dict_link s str =
     (let s = s\<lparr>ins_h := UPDATE_HASH s (ins_h s) (window s (unat (str + MIN_MATCH - 1)))\<rparr>;
          s = s\<lparr>prev := (prev s)(unat (str AND w_mask s) := head s (unat (ins_h s)))\<rparr>
      in s\<lparr>head := (head s)(unat (ins_h s) := ucast str)\<rparr>)"

function dict_insert_loop :: "dstate \<Rightarrow> u32 \<Rightarrow> u32 \<Rightarrow> dstate \<times> u32" where
  "dict_insert_loop s str n =
     (let s = dict_link s str;
          str = str + 1;
          n = n - 1
      in if n \<noteq> 0 then dict_insert_loop s str n else (s, str))"
  by pat_completeness auto
termination
  by (relation "measure (\<lambda>(s, str, n). unat (n - 1))")
     (auto simp add: Let_def chain_length_decr)

declare dict_insert_loop.simps [simp del]

partial_function (option) dict_loop :: "dstate \<Rightarrow> dstate option" where
  "dict_loop s =
     (if lookahead s \<ge> MIN_MATCH
      then
        (case dict_insert_loop s (strstart s) (lookahead s - (MIN_MATCH - 1)) of
           (s1, str) \<Rightarrow>
             let s2 = s1\<lparr>strstart := str\<rparr>;
                 s3 = s2\<lparr>lookahead := MIN_MATCH - 1\<rparr>
             in (case fill_window s3 of None \<Rightarrow> None | Some s4 \<Rightarrow> dict_loop s4))
      else Some s)"

definition deflateSetDictionary ::
  "dstate \<Rightarrow> byte list \<Rightarrow> u32 \<Rightarrow> (retcode \<times> dstate) option" where
  "deflateSetDictionary strm dictionary0 dictLength0 =
     (if lookahead strm \<noteq> 0 then Some (Z_STREAM_ERROR, strm)
      else
        let (s, dictionary, dictLength) =
              (if dictLength0 \<ge> w_size strm
               then
                 let s = CLEAR_HASH strm;
                     s = s\<lparr>strstart := 0\<rparr>;
                     s = s\<lparr>block_start := 0\<rparr>;
                     s = s\<lparr>insert := 0\<rparr>
                 in (s, drop (unat (dictLength0 - w_size s)) dictionary0, w_size s)
               else (strm, dictionary0, dictLength0));
            avail = avail_in s;
            nxt = next_in s;
            s = s\<lparr>avail_in := dictLength\<rparr>;
            s = s\<lparr>next_in := Some dictionary\<rparr>
        in case fill_window s of
             None \<Rightarrow> None
           | Some s \<Rightarrow>
               (case dict_loop s of
                  None \<Rightarrow> None
                | Some s \<Rightarrow>
                    let s = s\<lparr>strstart := strstart s + lookahead s\<rparr>;
                        s = s\<lparr>block_start := uint (strstart s)\<rparr>;
                        s = s\<lparr>insert := lookahead s\<rparr>;
                        s = s\<lparr>lookahead := 0\<rparr>;
                        s = s\<lparr>match_length := MIN_MATCH - 1, prev_length := MIN_MATCH - 1\<rparr>;
                        s = s\<lparr>match_available := 0\<rparr>;
                        s = s\<lparr>next_in := nxt\<rparr>;
                        s = s\<lparr>avail_in := avail\<rparr>
                    in Some (Z_OK, s)))"

section \<open>Vocabulary for the statements\<close>

text \<open>
  The stream that a pass of a loop leaves behind, however the pass ends.
\<close>

fun ctl_state :: "ctl \<Rightarrow> dstate" where
  "ctl_state (Return r s) = s"
| "ctl_state (Break s) = s"
| "ctl_state (Continue s) = s"


definition insert_all :: "dstate \<Rightarrow> u32 list \<Rightarrow> dstate" where
  "insert_all s ps = foldl (\<lambda>t p. fst (INSERT_STRING t p)) s ps"

text \<open>
  For the stored engine: the number of bytes between \<open>block_start\<close> and the end of the
  lookahead, and the stream once \<^verbatim>\<open>deflate_stored\<close> has cut a block of \<open>mbs\<close> bytes
  off them (deflate.cpp, lines 1069 to 1076): the block ends at \<open>block_start + mbs\<close>
  and the rest of the bytes stay as lookahead.
\<close>

definition bytes_ready :: "dstate \<Rightarrow> int" where
  "bytes_ready s = uint (strstart s) + uint (lookahead s) - block_start s"

definition stored_full_block :: "dstate \<Rightarrow> u32 \<Rightarrow> dstate" where
  "stored_full_block s mbs =
     s\<lparr>lookahead := word_of_int (bytes_ready s - uint mbs),
       strstart := word_of_int (block_start s + uint mbs)\<rparr>"

text \<open>
  The invariant of the window that \<^verbatim>\<open>deflateInit2\<close> establishes and every function
  below relies on: \<open>w_size\<close> is between \<open>2^9\<close> and \<open>2^15\<close>, the window holds
  \<open>2 * w_size\<close> bytes, and the data up to the end of the lookahead lie inside it.
  \<open>read_len\<close> is the number of bytes that \<^verbatim>\<open>read_buf\<close> takes, and \<open>fills s s'\<close>
  lists what the loop of \<^verbatim>\<open>fill_window\<close> keeps when it goes from \<open>s\<close> to \<open>s'\<close>
  without sliding.
\<close>

definition stream_ok :: "dstate \<Rightarrow> bool" where
  "stream_ok s \<longleftrightarrow>
     512 \<le> unat (w_size s) \<and> unat (w_size s) \<le> 32768 \<and> window_size s = 2 * w_size s \<and>
     unat (strstart s) + unat (lookahead s) \<le> unat (window_size s)"

definition read_len :: "dstate \<Rightarrow> u32 \<Rightarrow> u32" where
  "read_len s nmore = (if avail_in s > nmore then nmore else avail_in s)"

definition fills :: "dstate \<Rightarrow> dstate \<Rightarrow> bool" where
  "fills s s' \<longleftrightarrow>
     strstart s' = strstart s \<and> match_start s' = match_start s \<and>
     block_start s' = block_start s \<and> w_size s' = w_size s \<and>
     window_size s' = window_size s \<and> pending_buf_size s' = pending_buf_size s \<and>
     unat (lookahead s') + unat (avail_in s') = unat (lookahead s) + unat (avail_in s) \<and>
     unat (avail_in s') \<le> unat (avail_in s) \<and>
     (\<forall>i < unat (strstart s) + unat (lookahead s). window s' i = window s i) \<and>
     (insert s = 0 \<longrightarrow> head s' = head s \<and> prev s' = prev s \<and> insert s' = 0)"

text \<open>
  What \<^verbatim>\<open>deflate_stored\<close> does after a pass of its loop, given how the pass ended: it
  returns, runs the statements after the loop, or runs the loop again.
\<close>

definition stored_resume :: "trees_ops \<Rightarrow> int \<Rightarrow> ctl \<Rightarrow> (block_state \<times> dstate) option" where
  "stored_resume ops flush c =
     (case c of
        Return r s' \<Rightarrow> Some (r, s')
      | Break s' \<Rightarrow> Some (deflate_stored_tail ops s' flush)
      | Continue s' \<Rightarrow> deflate_stored ops s' flush)"

section \<open>Concrete streams for evaluation\<close>

text \<open>
  A stand-in for the trees subsystem that keeps the tally and the pending output as they
  are, and a stream object before initialisation with every field zero. Both are used
  only to evaluate the functions on concrete inputs.
\<close>

definition null_trees :: trees_ops where
  "null_trees =
     \<lparr>tr_init = (\<lambda>s. (tr s)\<lparr>last_lit := 0\<rparr>),
      tr_flush_block = (\<lambda>s buf len last. (tr s)\<lparr>last_lit := 0\<rparr>),
      tr_stored_block = (\<lambda>s buf len last. tr s),
      tr_align = (\<lambda>s. tr s),
      tr_flush_bits = (\<lambda>s. tr s),
      length_code = (\<lambda>b. 0),
      d_code = (\<lambda>d. 0)\<rparr>"

definition zero_trees :: tree_state where
  "zero_trees =
     \<lparr>pending = [], last_lit = 0, d_buf = (\<lambda>i. 0), l_buf = (\<lambda>i. 0),
      dyn_ltree = (\<lambda>i. 0), dyn_dtree = (\<lambda>i. 0), bi_buf = 0, bi_valid = 0\<rparr>"

definition zero_stream :: dstate where
  "zero_stream =
     \<lparr>next_in = None, avail_in = 0, total_in = 0, next_out = None, avail_out = 0,
      total_out = 0, msg = None, data_type = 0, status = INIT_STATE, last_flush = 0,
      w_size = 0, w_bits = 0, w_mask = 0, window = (\<lambda>i. 0), window_size = 0,
      prev = (\<lambda>i. 0), head = (\<lambda>i. 0), ins_h = 0, hash_size = 0, hash_bits = 0,
      hash_mask = 0, hash_shift = 0, block_start = 0, match_length = 0, prev_match = 0,
      match_available = 0, strstart = 0, match_start = 0, lookahead = 0, prev_length = 0,
      max_chain_length = 0, max_lazy_match = 0, level = 0, strategy = 0, good_match = 0,
      nice_match = 0, insert = 0, high_water = 0, pending_buf_size = 0, lit_bufsize = 0,
      tr = zero_trees\<rparr>"

text \<open>The stream after \<^verbatim>\<open>deflateInit2\<close> with the given level, window bits and memory level.\<close>

definition init_stream :: "int \<Rightarrow> int \<Rightarrow> int \<Rightarrow> dstate" where
  "init_stream lvl wbits memLevel =
     snd (deflateInit2 null_trees zero_stream lvl Z_DEFLATED wbits memLevel Z_DEFAULT_STRATEGY)"


text \<open>A stream whose window is due for a slide: \<open>w_size = 512\<close>, \<open>strstart = 800\<close>.\<close>

definition slide_example :: dstate where
  "slide_example =
     (init_stream 6 9 8)
       \<lparr>strstart := 800, lookahead := 100, match_start := 700, block_start := 600,
        window := (\<lambda>i. of_nat (i div 3)),
        head := (\<lambda>i. if i = 5 then 700 else if i = 6 then 100 else 0),
        prev := (\<lambda>i. if i = 7 then 520 else 0)\<rparr>"


text \<open>
  Streams for the session driver: one with input and no room for output; one with no
  input, ready for \<^verbatim>\<open>Z_FINISH\<close>, and the stream that call leaves behind; one whose
  last call was a sync flush.
\<close>

definition full_output_example :: dstate where
  "full_output_example =
     (init_stream 6 9 8)\<lparr>next_in := Some [1, 2, 3], avail_in := 3, next_out := Some [], avail_out := 0\<rparr>"

definition finished_example :: dstate where
  "finished_example =
     (init_stream 6 9 8)\<lparr>next_in := Some [], next_out := Some [], avail_out := 10\<rparr>"

definition finished_stream :: dstate where
  "finished_stream =
     finished_example
       \<lparr>last_flush := 4, window := (\<lambda>i. 0), high_water := 258, insert := 0,
        tr := zero_trees\<lparr>last_lit := 0\<rparr>, block_start := 0, status := FINISH_STATE\<rparr>"

definition repeated_sync_example :: dstate where
  "repeated_sync_example = finished_example\<lparr>last_flush := Z_SYNC_FLUSH\<rparr>"


text \<open>
  A stream that has consumed the two bytes \<open>ab\<close>, with the position fields that a call
  of \<^verbatim>\<open>deflate\<close> with a sync flush leaves behind; the same stream with lookahead
  left; the stream with a one-byte dictionary set up as input, and after
  \<^verbatim>\<open>fill_window\<close> has read it.
\<close>

definition consumed_example :: dstate where
  "consumed_example =
     (init_stream 6 9 8)
       \<lparr>next_in := Some [], next_out := Some [], avail_out := 10, total_in := 2,
        last_flush := Z_SYNC_FLUSH,
        strstart := 2, block_start := 2, insert := 2, high_water := 260,
        window := (\<lambda>i. if i < 2 then [97, 98] ! i else 0)\<rparr>"

definition looking_ahead_example :: dstate where
  "looking_ahead_example = consumed_example\<lparr>lookahead := 5\<rparr>"

definition priming_example :: dstate where
  "priming_example = consumed_example\<lparr>avail_in := 1, next_in := Some [99]\<rparr>"

definition primed_read :: dstate where
  "primed_read =
     priming_example
       \<lparr>avail_in := 0,
        window := (\<lambda>i. if 2 \<le> i \<and> i < 3 then [99] ! (i - 2) else window priming_example i),
        next_in := Some [], total_in := 3, lookahead := 1, ins_h := 2083,
        prev := (\<lambda>i. 0)(0 := 0), head := (\<lambda>i. 0)(2083 := 0), insert := 1\<rparr>"

text \<open>
  Streams for the stored engine, all after \<^verbatim>\<open>deflateInit2\<close> with level 0, 15 window
  bits and memory level 8. \<open>fresh_stored_example\<close> has one byte of input, \<open>c\<close>.
  \<open>stored_example\<close> has the position fields that \<^verbatim>\<open>deflateSetDictionary\<close> with the
  two bytes \<open>ab\<close> gives it: \<open>strstart = block_start = insert = 2\<close>. \<open>stored_read\<close>,
  \<open>stored_filled\<close> and \<open>stored_copied\<close> are the stages of the first pass of
  \<^verbatim>\<open>deflate_stored\<close> on it: after \<^verbatim>\<open>read_buf\<close> and the hash replay, after the
  rest of \<^verbatim>\<open>fill_window\<close>, and after the lookahead has been added to the block.
  \<open>full_block_example\<close> holds 65536 bytes of lookahead (zeros) at the start of the
  window; \<open>stored_flushed\<close>, \<open>stored_joined\<close> and \<open>stored_slid\<close> are the stages
  of \<^verbatim>\<open>deflate_stored\<close> on it: after the flush of the first block, after the rest
  of the lookahead has been added to the next block, and after the slide of
  \<^verbatim>\<open>fill_window\<close>. \<open>len_trees\<close> is a stand-in for the trees subsystem that writes,
  for every block, the two bytes of \<open>stored_len\<close> to the pending output, low byte
  first.
\<close>

definition fresh_stored_example :: dstate where
  "fresh_stored_example =
     (init_stream 0 15 8)\<lparr>next_in := Some [99], avail_in := 1, next_out := Some [], avail_out := 10\<rparr>"

definition stored_example :: dstate where
  "stored_example =
     (init_stream 0 15 8)
       \<lparr>next_in := Some [99], avail_in := 1, next_out := Some [], avail_out := 10,
        total_in := 2, strstart := 2, block_start := 2, insert := 2, high_water := 260,
        window := (\<lambda>i. if i < 2 then [97, 98] ! i else 0)\<rparr>"

definition stored_read :: dstate where
  "stored_read =
     stored_example
       \<lparr>avail_in := 0,
        window := (\<lambda>i. if 2 \<le> i \<and> i < 3 then [99] ! (i - 2) else window stored_example i),
        next_in := Some [], total_in := 3, lookahead := 1, ins_h := 2083,
        prev := (\<lambda>i. 0)(0 := 0), head := (\<lambda>i. 0)(2083 := 0), insert := 1\<rparr>"

definition stored_filled :: dstate where
  "stored_filled =
     stored_read\<lparr>window := memset (window stored_read) 260 0 1, high_water := 261\<rparr>"

definition stored_copied :: dstate where
  "stored_copied = stored_filled\<lparr>strstart := 3, lookahead := 0\<rparr>"

definition full_block_example :: dstate where
  "full_block_example =
     (init_stream 0 15 8)
       \<lparr>next_in := Some [], next_out := Some [], avail_out := 10, total_in := 65536,
        lookahead := 65536, high_water := 65536\<rparr>"

definition len_trees :: trees_ops where
  "len_trees =
     null_trees
       \<lparr>tr_flush_block :=
          (\<lambda>s buf len is_last.
             (tr s)\<lparr>pending := pending (tr s) @ [ucast len, ucast (drop_bit 8 len)],
                    last_lit := 0\<rparr>)\<rparr>"

definition stored_flushed :: dstate where
  "stored_flushed = FLUSH_BLOCK_ONLY len_trees (stored_full_block full_block_example 65531) False"

definition stored_joined :: dstate where
  "stored_joined =
     stored_flushed\<lparr>strstart := strstart stored_flushed + lookahead stored_flushed, lookahead := 0\<rparr>"

definition stored_slid :: dstate where
  "stored_slid = fill_window_high_water (slide_window stored_joined)"

section \<open>Evaluation lemmas for the concrete streams\<close>

lemmas init_defs = init_stream_def deflateInit2_def deflateReset_def deflateResetKeep_def
  lm_init_def CLEAR_HASH_def zero_stream_def zero_trees_def null_trees_def Z_DEFLATED_def
  Z_DEFAULT_COMPRESSION_def MAX_MEM_LEVEL_def Z_FIXED_def Z_DEFAULT_STRATEGY_def Let_def

lemma init_stream_bits:
  "w_bits (init_stream 6 15 8) = 15" "hash_bits (init_stream 6 15 8) = 15"
  "w_bits (init_stream 6 9 8) = 9" "hash_bits (init_stream 6 9 8) = 15"
  by (simp_all add: init_defs)

lemma head_init_stream_6_9_8: "head (init_stream 6 9 8) = (\<lambda>i. 0)"
  by (rule ext) (simp add: init_defs match_defs flush_defs configuration_table_def mk_config_def)

lemma init_stream_6_9_8:
  "next_in (init_stream 6 9 8) = None" "avail_in (init_stream 6 9 8) = 0"
  "total_in (init_stream 6 9 8) = 0" "next_out (init_stream 6 9 8) = None"
  "avail_out (init_stream 6 9 8) = 0" "total_out (init_stream 6 9 8) = 0"
  "msg (init_stream 6 9 8) = None" "status (init_stream 6 9 8) = BUSY_STATE"
  "last_flush (init_stream 6 9 8) = 0"
  "w_size (init_stream 6 9 8) = 512" "w_bits (init_stream 6 9 8) = 9"
  "w_mask (init_stream 6 9 8) = 511" "window (init_stream 6 9 8) = (\<lambda>i. 0)"
  "window_size (init_stream 6 9 8) = 1024" "prev (init_stream 6 9 8) = (\<lambda>i. 0)"
  "ins_h (init_stream 6 9 8) = 0"
  "hash_size (init_stream 6 9 8) = 32768" "hash_bits (init_stream 6 9 8) = 15"
  "hash_mask (init_stream 6 9 8) = 32767" "hash_shift (init_stream 6 9 8) = 5"
  "block_start (init_stream 6 9 8) = 0" "match_length (init_stream 6 9 8) = 2"
  "prev_match (init_stream 6 9 8) = 0" "match_available (init_stream 6 9 8) = 0"
  "strstart (init_stream 6 9 8) = 0" "match_start (init_stream 6 9 8) = 0"
  "lookahead (init_stream 6 9 8) = 0" "prev_length (init_stream 6 9 8) = 2"
  "max_chain_length (init_stream 6 9 8) = 128" "max_lazy_match (init_stream 6 9 8) = 16"
  "level (init_stream 6 9 8) = 6" "strategy (init_stream 6 9 8) = 0"
  "good_match (init_stream 6 9 8) = 8" "nice_match (init_stream 6 9 8) = 128"
  "insert (init_stream 6 9 8) = 0" "high_water (init_stream 6 9 8) = 0"
  "pending_buf_size (init_stream 6 9 8) = 65536" "lit_bufsize (init_stream 6 9 8) = 16384"
  "tr (init_stream 6 9 8) = zero_trees"
  by (simp_all add: init_defs match_defs flush_defs configuration_table_def mk_config_def)

section \<open>Size bound\<close>

lemma unat_round_up_8:
  fixes n :: u64
  assumes "unat n + 63 < 2 ^ 64"
  shows "unat (drop_bit 3 (n + 7)) = (unat n + 7) div 8"
proof -
  have "unat (n + 7) = unat n + 7"
    using assms by (simp add: unat_word_ariths)
  then show ?thesis
    by (simp add: unat_drop_bit_eq drop_bit_eq_div unat_div)
qed

lemma unat_round_up_64:
  fixes n :: u64
  assumes "unat n + 63 < 2 ^ 64"
  shows "unat (drop_bit 6 (n + 63)) = (unat n + 63) div 64"
proof -
  have "unat (n + 63) = unat n + 63"
    using assms by (simp add: unat_word_ariths)
  then show ?thesis
    by (simp add: unat_drop_bit_eq drop_bit_eq_div unat_div)
qed

text \<open>
  C4 (as amended). With \<open>w_bits = 15\<close> and \<open>hash_bits = 15\<close> the bound is
  \<open>n + (n >> 12) + (n >> 14) + (n >> 25) + 7\<close>; with any other parameters, and
  \<open>n + 63\<close> representable in \<^verbatim>\<open>std::size_t\<close>, it is
  \<open>n + \<lceil>n/8\<rceil> + \<lceil>n/64\<rceil> + 5\<close>. Both sums are taken modulo \<open>2^64\<close>,
  the arithmetic of \<^verbatim>\<open>std::size_t\<close>.
\<close>

theorem upper_bound_formula:
  "(w_bits s = 15 \<and> hash_bits s = 15 \<longrightarrow>
      upper_bound s n = n + drop_bit 12 n + drop_bit 14 n + drop_bit 25 n + 7 \<and>
      unat (upper_bound s n) =
        (unat n + unat n div 2 ^ 12 + unat n div 2 ^ 14 + unat n div 2 ^ 25 + 7) mod 2 ^ 64) \<and>
   (\<not> (w_bits s = 15 \<and> hash_bits s = 15) \<and> unat n + 63 < 2 ^ 64 \<longrightarrow>
      unat (upper_bound s n) =
        (unat n + (unat n + 7) div 8 + (unat n + 63) div 64 + 5) mod 2 ^ 64)"
proof (intro conjI impI)
  assume d: "w_bits s = 15 \<and> hash_bits s = 15"
  then show e: "upper_bound s n = n + drop_bit 12 n + drop_bit 14 n + drop_bit 25 n + 7"
    by (simp add: upper_bound_def)
  show "unat (upper_bound s n) =
        (unat n + unat n div 2 ^ 12 + unat n div 2 ^ 14 + unat n div 2 ^ 25 + 7) mod 2 ^ 64"
    unfolding e
    by (simp add: unat_word_ariths unat_drop_bit_eq drop_bit_eq_div mod_simps)
next
  assume h: "\<not> (w_bits s = 15 \<and> hash_bits s = 15) \<and> unat n + 63 < 2 ^ 64"
  then have "upper_bound s n = n + drop_bit 3 (n + 7) + drop_bit 6 (n + 63) + 5"
    by (auto simp add: upper_bound_def)
  then show "unat (upper_bound s n) =
        (unat n + (unat n + 7) div 8 + (unat n + 63) div 64 + 5) mod 2 ^ 64"
    using h by (simp add: unat_word_ariths unat_round_up_8 unat_round_up_64 mod_simps)
qed

theorem upper_bound_formula_witness:
  "w_bits (init_stream 6 15 8) = 15 \<and> hash_bits (init_stream 6 15 8) = 15 \<and>
   unat (upper_bound (init_stream 6 15 8) 1000000) = 1000312 \<and>
   \<not> (w_bits (init_stream 6 9 8) = 15 \<and> hash_bits (init_stream 6 9 8) = 15) \<and>
   unat (1000 :: u64) + 63 < 2 ^ 64 \<and>
   unat (upper_bound (init_stream 6 9 8) 1000) = 1146"
  using upper_bound_formula [of "init_stream 6 15 8" 1000000]
    upper_bound_formula [of "init_stream 6 9 8" 1000]
  by (simp add: init_stream_bits)

text \<open>
  The claim C4 as stated fails at \<open>n = 2^64 - 1 = 18446744073709551615\<close> with non-default parameters: there
  \<open>n + 7\<close> and \<open>n + 63\<close> wrap around, both rounded quotients are 0 and the result is 4,
  which is not \<open>n + \<lceil>n/8\<rceil> + \<lceil>n/64\<rceil> + 5\<close>, with or without reduction modulo
  \<open>2^64\<close>.
\<close>

theorem upper_bound_counterexample:
  "unat (upper_bound (init_stream 6 9 8) 18446744073709551615) = 4 \<and>
   unat (18446744073709551615 :: u64) = 18446744073709551615 \<and>
   (18446744073709551615 + (18446744073709551615 + 7) div 8 +
      (18446744073709551615 + 63) div 64 + 5 :: nat) \<noteq> 4 \<and>
   (18446744073709551615 + (18446744073709551615 + 7) div 8 +
      (18446744073709551615 + 63) div 64 + 5 :: nat) mod 2 ^ 64 \<noteq> 4"
  by (simp add: upper_bound_def init_stream_bits)

section \<open>Reset and the byte counters\<close>

text \<open>
  C8 (as amended). \<^verbatim>\<open>basic_deflate_stream::deflateResetKeep\<close> leaves \<open>total_in\<close> and
  \<open>total_out\<close> as they were; \<^verbatim>\<open>deflate_stream::deflateResetKeep\<close> of deflate.cpp sets
  both to zero.
\<close>

theorem deflateResetKeep_counters:
  "total_in (basic_deflateResetKeep ops s) = total_in s \<and>
   total_out (basic_deflateResetKeep ops s) = total_out s \<and>
   total_in (snd (deflateResetKeep ops s)) = 0 \<and>
   total_out (snd (deflateResetKeep ops s)) = 0"
  by (simp add: basic_deflateResetKeep_def deflateResetKeep_def Let_def)

text \<open>
  The claim C8 as stated fails for \<^verbatim>\<open>deflate_stream::deflateResetKeep\<close>: a stream that
  has consumed 5 bytes and produced 3 has both counters at 0 after the call.
\<close>

theorem deflateResetKeep_counterexample:
  "total_in (snd (deflateResetKeep null_trees (zero_stream\<lparr>total_in := 5, total_out := 3\<rparr>)))
     \<noteq> total_in (zero_stream\<lparr>total_in := 5, total_out := 3\<rparr>) \<and>
   total_out (snd (deflateResetKeep null_trees (zero_stream\<lparr>total_in := 5, total_out := 3\<rparr>)))
     \<noteq> total_out (zero_stream\<lparr>total_in := 5, total_out := 3\<rparr>)"
  by (simp add: deflateResetKeep_def Let_def)

section \<open>The slide of \<^verbatim>\<open>fill_window\<close>\<close>

lemma slide_loop_apply:
  "slide_loop wsize n p i = (if i < n then rebase wsize (p i) else p i)"
  by (induction n arbitrary: p) (auto simp add: less_Suc_eq)

lemma unat_ucast_16_32: "unat (ucast (e :: u16) :: u32) = unat e"
proof -
  have "unat e < 2 ^ 16" using unsigned_less [of e] by simp
  then have "unat e < 2 ^ 32" by simp
  then show ?thesis by (simp add: unsigned_ucast_eq take_bit_nat_eq_self)
qed

lemma unat_ucast_32_16: "unat w < 2 ^ 16 \<Longrightarrow> unat (ucast (w :: u32) :: u16) = unat w"
  by (simp add: unsigned_ucast_eq take_bit_nat_eq_self)

lemma unat_rebase:
  "unat (rebase wsize e) = (if unat e < unat wsize then 0 else unat e - unat wsize)"
proof (cases "(ucast e :: u32) \<ge> wsize")
  case True
  then have le: "unat wsize \<le> unat e"
    by (simp add: word_le_nat_alt unat_ucast_16_32)
  have "unat (ucast e - wsize) = unat e - unat wsize"
    using True by (simp add: unat_sub unat_ucast_16_32)
  moreover have "unat e < 2 ^ 16" using unsigned_less [of e] by simp
  ultimately have "unat (ucast (ucast e - wsize) :: u16) = unat e - unat wsize"
    by (simp add: unat_ucast_32_16)
  then show ?thesis using True le
    by (simp add: rebase_def Let_def)
next
  case False
  then show ?thesis
    by (simp add: rebase_def Let_def NIL_def word_le_nat_alt unat_ucast_16_32)
qed


lemma avail_in_slide_window: "avail_in (slide_window s) = avail_in s"
  by (simp add: slide_window_def Let_def)

lemma slide_window_tables:
  "\<forall>i < unat (w_size s). window (slide_window s) i = window s (i + unat (w_size s))"
  "\<forall>i < unat (hash_size s).
     unat (head (slide_window s) i) =
       (if unat (head s i) < unat (w_size s) then 0 else unat (head s i) - unat (w_size s))"
  "\<forall>i < unat (w_size s).
     unat (prev (slide_window s) i) =
       (if unat (prev s i) < unat (w_size s) then 0 else unat (prev s i) - unat (w_size s))"
  by (simp_all add: slide_window_def Let_def slide_loop_apply unat_rebase)

lemma slide_window_fields:
  "strstart (slide_window s) = strstart s - w_size s"
  "match_start (slide_window s) = match_start s - w_size s"
  "block_start (slide_window s) = block_start s - uint (w_size s)"
  "w_size (slide_window s) = w_size s" "window_size (slide_window s) = window_size s"
  "lookahead (slide_window s) = lookahead s" "avail_in (slide_window s) = avail_in s"
  "pending_buf_size (slide_window s) = pending_buf_size s"
  "insert (slide_window s) = insert s" "high_water (slide_window s) = high_water s"
  "MAX_DIST (slide_window s) = MAX_DIST s"
  by (simp_all add: slide_window_def Let_def MAX_DIST_def)

lemma stream_okD:
  assumes "stream_ok s"
  shows "512 \<le> unat (w_size s)" and "unat (w_size s) \<le> 32768"
    and "window_size s = 2 * w_size s"
    and "unat (strstart s) + unat (lookahead s) \<le> unat (window_size s)"
  using assms unfolding stream_ok_def by blast+

lemma stream_okI:
  assumes "512 \<le> unat (w_size s)" and "unat (w_size s) \<le> 32768"
    and "window_size s = 2 * w_size s"
    and "unat (strstart s) + unat (lookahead s) \<le> unat (window_size s)"
  shows "stream_ok s"
  using assms unfolding stream_ok_def by blast

lemma stream_ok_unat:
  assumes "stream_ok s"
  shows "unat (window_size s) = 2 * unat (w_size s)"
    and "unat (MAX_DIST s) = unat (w_size s) - 262"
    and "unat (w_size s + MAX_DIST s) = 2 * unat (w_size s) - 262"
proof -
  have b: "512 \<le> unat (w_size s)" "unat (w_size s) \<le> 32768" and w: "window_size s = 2 * w_size s"
    using assms unfolding stream_ok_def by blast+
  show "unat (window_size s) = 2 * unat (w_size s)"
    unfolding w using b by (simp add: unat_mult_lem [THEN iffD1])
  have m: "(262 :: u32) \<le> w_size s" using b by (simp add: word_le_nat_alt)
  show d: "unat (MAX_DIST s) = unat (w_size s) - 262"
    using m by (simp add: MAX_DIST_def match_defs unat_sub)
  show "unat (w_size s + MAX_DIST s) = 2 * unat (w_size s) - 262"
    using b d by (simp add: unat_add_lem [THEN iffD1])
qed

lemma fill_insert_loop_inv:
  assumes "\<And>s str. f (fill_insert_step s str) = f s"
  shows "f (fill_insert_loop s str) = f s"
proof (induction s str rule: fill_insert_loop.induct)
  case (1 s str)
  show ?case
    using 1 assms by (subst fill_insert_loop.simps) (simp add: Let_def)
qed

lemma fill_insert_loop_fields:
  "strstart (fill_insert_loop s str) = strstart s"
  "lookahead (fill_insert_loop s str) = lookahead s"
  "avail_in (fill_insert_loop s str) = avail_in s"
  "window_size (fill_insert_loop s str) = window_size s"
  "w_size (fill_insert_loop s str) = w_size s"
  "window (fill_insert_loop s str) = window s"
  "match_start (fill_insert_loop s str) = match_start s"
  "block_start (fill_insert_loop s str) = block_start s"
  "high_water (fill_insert_loop s str) = high_water s"
  "pending_buf_size (fill_insert_loop s str) = pending_buf_size s"
  by (rule fill_insert_loop_inv, simp add: fill_insert_step_def Let_def)+

lemma fill_insert_loop_idle: "insert s = 0 \<Longrightarrow> fill_insert_loop s str = s"
  by (subst fill_insert_loop.simps) simp

lemma fill_window_read_fields:
  "strstart (fill_window_read s nmore) = strstart s"
  "window_size (fill_window_read s nmore) = window_size s"
  "w_size (fill_window_read s nmore) = w_size s"
  "match_start (fill_window_read s nmore) = match_start s"
  "block_start (fill_window_read s nmore) = block_start s"
  "high_water (fill_window_read s nmore) = high_water s"
  "pending_buf_size (fill_window_read s nmore) = pending_buf_size s"
  "lookahead (fill_window_read s nmore) = lookahead s + read_len s nmore"
  "avail_in (fill_window_read s nmore) = avail_in s - read_len s nmore"
  by (simp_all add: fill_window_read_def read_buf_def read_len_def Let_def
      fill_insert_loop_fields split: prod.splits if_splits)

lemma fill_window_read_window:
  "i < unat (strstart s) + unat (lookahead s) \<Longrightarrow> window (fill_window_read s nmore) i = window s i"
  by (simp add: fill_window_read_def read_buf_def Let_def fill_insert_loop_fields
      split: prod.splits if_splits)

lemma fill_window_read_hash:
  "insert s = 0 \<Longrightarrow> head (fill_window_read s nmore) = head s"
  "insert s = 0 \<Longrightarrow> prev (fill_window_read s nmore) = prev s"
  "insert s = 0 \<Longrightarrow> insert (fill_window_read s nmore) = 0"
  by (simp_all add: fill_window_read_def read_buf_def Let_def fill_insert_loop_idle
      split: prod.splits if_splits)

lemma fill_window_read_unat:
  assumes ok: "stream_ok s" and ns: "\<not> strstart s \<ge> w_size s + MAX_DIST s"
  defines "nmore \<equiv> window_size s - lookahead s - strstart s"
  shows "unat nmore = unat (window_size s) - unat (lookahead s) - unat (strstart s)"
    and "unat (read_len s nmore) = min (unat (avail_in s)) (unat nmore)"
    and "unat (lookahead (fill_window_read s nmore)) =
           unat (lookahead s) + min (unat (avail_in s)) (unat nmore)"
    and "unat (avail_in (fill_window_read s nmore)) =
           unat (avail_in s) - min (unat (avail_in s)) (unat nmore)"
    and "nmore = 0 \<Longrightarrow> \<not> lookahead s < MIN_LOOKAHEAD"
proof -
  note u = stream_ok_unat [OF ok]
  have b: "unat (strstart s) + unat (lookahead s) \<le> unat (window_size s)"
    "unat (w_size s) \<le> 32768"
    using ok unfolding stream_ok_def by blast+
  have l: "lookahead s \<le> window_size s" using b by (simp add: word_le_nat_alt)
  have 1: "unat (window_size s - lookahead s) = unat (window_size s) - unat (lookahead s)"
    using l by (simp add: unat_sub)
  have "strstart s \<le> window_size s - lookahead s"
    using b by (simp add: word_le_nat_alt 1)
  then show n: "unat nmore = unat (window_size s) - unat (lookahead s) - unat (strstart s)"
    by (simp add: nmore_def unat_sub 1)
  show r: "unat (read_len s nmore) = min (unat (avail_in s)) (unat nmore)"
    by (simp add: read_len_def word_less_nat_alt min_def)
  have "unat (lookahead s) + unat (read_len s nmore) < 2 ^ 32"
    using b u n r by simp
  then show "unat (lookahead (fill_window_read s nmore)) =
           unat (lookahead s) + min (unat (avail_in s)) (unat nmore)"
    by (simp add: fill_window_read_fields unat_add_lem [THEN iffD1] r)
  have "read_len s nmore \<le> avail_in s"
    by (simp add: word_le_nat_alt r)
  then show "unat (avail_in (fill_window_read s nmore)) =
           unat (avail_in s) - min (unat (avail_in s)) (unat nmore)"
    by (simp add: fill_window_read_fields unat_sub r)
  show "\<not> lookahead s < MIN_LOOKAHEAD" if "nmore = 0"
  proof -
    have "unat (strstart s) < 2 * unat (w_size s) - 262"
      using ns u by (simp add: word_le_nat_alt)
    moreover have "unat (window_size s) - unat (lookahead s) - unat (strstart s) = 0"
      using n that by simp
    ultimately have "262 \<le> unat (lookahead s)" using u b by simp
    then show ?thesis by (simp add: word_less_nat_alt match_defs)
  qed
qed

lemma fills_refl: "fills s s"
  by (simp add: fills_def)

lemma fills_trans:
  assumes "fills s s2" and "fills s2 s'"
  shows "fills s s'"
proof -
  have a: "strstart s2 = strstart s" "match_start s2 = match_start s"
    "block_start s2 = block_start s" "w_size s2 = w_size s"
    "window_size s2 = window_size s" "pending_buf_size s2 = pending_buf_size s"
    "unat (lookahead s2) + unat (avail_in s2) = unat (lookahead s) + unat (avail_in s)"
    "unat (avail_in s2) \<le> unat (avail_in s)"
    "\<forall>i < unat (strstart s) + unat (lookahead s). window s2 i = window s i"
    "insert s = 0 \<longrightarrow> head s2 = head s \<and> prev s2 = prev s \<and> insert s2 = 0"
    using assms(1) unfolding fills_def by blast+
  have b: "strstart s' = strstart s2" "match_start s' = match_start s2"
    "block_start s' = block_start s2" "w_size s' = w_size s2"
    "window_size s' = window_size s2" "pending_buf_size s' = pending_buf_size s2"
    "unat (lookahead s') + unat (avail_in s') = unat (lookahead s2) + unat (avail_in s2)"
    "unat (avail_in s') \<le> unat (avail_in s2)"
    "\<forall>i < unat (strstart s2) + unat (lookahead s2). window s' i = window s2 i"
    "insert s2 = 0 \<longrightarrow> head s' = head s2 \<and> prev s' = prev s2 \<and> insert s' = 0"
    using assms(2) unfolding fills_def by blast+
  have l: "unat (lookahead s) \<le> unat (lookahead s2)" using a(7,8) by linarith
  have w: "\<forall>i < unat (strstart s) + unat (lookahead s). window s' i = window s i"
    using a(1,9) b(9) l by auto
  have h: "insert s = 0 \<longrightarrow> head s' = head s \<and> prev s' = prev s \<and> insert s' = 0"
    using a(10) b(10) by auto
  show ?thesis
    unfolding fills_def using a(1-8) b(1-8) w h by (intro conjI) simp_all
qed

lemma fills_read:
  assumes ok: "stream_ok s" and ns: "\<not> strstart s \<ge> w_size s + MAX_DIST s"
  shows "fills s (fill_window_read s (window_size s - lookahead s - strstart s))"
    and "stream_ok (fill_window_read s (window_size s - lookahead s - strstart s))"
proof -
  note r = fill_window_read_unat [OF ok ns]
  note u = stream_ok_unat [OF ok]
  show "fills s (fill_window_read s (window_size s - lookahead s - strstart s))"
    unfolding fills_def
    by (simp add: fill_window_read_fields(1-7) fill_window_read_window fill_window_read_hash
        r(3,4))
  have "unat (strstart s) + unat (lookahead s) \<le> unat (window_size s)"
    using ok unfolding stream_ok_def by blast
  then have "unat (strstart s) +
        (unat (lookahead s) + min (unat (avail_in s))
           (unat (window_size s - lookahead s - strstart s))) \<le> unat (window_size s)"
    unfolding r(1) by simp
  then have "unat (strstart (fill_window_read s (window_size s - lookahead s - strstart s))) +
        unat (lookahead (fill_window_read s (window_size s - lookahead s - strstart s))) \<le>
        unat (window_size (fill_window_read s (window_size s - lookahead s - strstart s)))"
    by (simp add: fill_window_read_fields(1-7) r(3))
  then show "stream_ok (fill_window_read s (window_size s - lookahead s - strstart s))"
    using stream_okD(1-3) [OF ok]
    by (intro stream_okI) (simp_all add: fill_window_read_fields(1-7))
qed

lemma fill_window_loop_no_slide:
  assumes "stream_ok s" and "\<not> strstart s \<ge> w_size s + MAX_DIST s"
  shows "\<exists>s'. fill_window_loop s = Some s' \<and> fills s s' \<and> stream_ok s'"
  using assms
proof (induction "unat (avail_in s)" arbitrary: s rule: less_induct)
  case less
  note ok = less.prems(1) and ns = less.prems(2)
  define nmore where "nmore = window_size s - lookahead s - strstart s"
  define s2 where "s2 = fill_window_read s nmore"
  have m: "fill_window_more s = (s, nmore)"
    using ns by (simp add: fill_window_more_def Let_def nmore_def)
  note r = fill_window_read_unat [OF ok ns, folded nmore_def, folded s2_def]
  note f = fills_read [OF ok ns, folded nmore_def, folded s2_def]
  show ?case
  proof (cases "avail_in s = 0")
    case True
    then have "fill_window_loop s = Some s"
      by (subst fill_window_loop.simps) (simp add: m)
    then show ?thesis using ok by (simp add: fills_refl)
  next
    case False
    show ?thesis
    proof (cases "lookahead s2 < MIN_LOOKAHEAD \<and> avail_in s2 \<noteq> 0")
      case c: True
      have e: "fill_window_loop s = fill_window_loop s2"
        using False c by (subst fill_window_loop.simps) (simp add: m s2_def [symmetric])
      have "nmore \<noteq> 0"
      proof
        assume z: "nmore = 0"
        then have "unat (lookahead s2) = unat (lookahead s)" using r(3) by simp
        then have "lookahead s2 = lookahead s" by (simp add: word_unat_eq_iff)
        then show False using r(5) [OF z] c by simp
      qed
      then have "0 < unat nmore" by (simp add: unat_gt_0)
      moreover have "0 < unat (avail_in s)" using False by (simp add: unat_gt_0)
      ultimately have d: "unat (avail_in s2) < unat (avail_in s)" using r(4) by simp
      have ns2: "\<not> strstart s2 \<ge> w_size s2 + MAX_DIST s2"
        using ns by (simp add: s2_def fill_window_read_fields MAX_DIST_def)
      obtain s' where "fill_window_loop s2 = Some s'" "fills s2 s'" "stream_ok s'"
        using less.hyps [OF d f(2) ns2] by blast
      then show ?thesis using e f(1) fills_trans by metis
    next
      case c: False
      have "fill_window_loop s = Some s2"
        using False c by (subst fill_window_loop.simps) (auto simp add: m s2_def [symmetric])
      then show ?thesis using f by simp
    qed
  qed
qed

lemma slide_window_ok:
  assumes ok: "stream_ok s" and sl: "strstart s \<ge> w_size s + MAX_DIST s"
  shows "unat (strstart (slide_window s)) = unat (strstart s) - unat (w_size s)"
    and "stream_ok (slide_window s)"
    and "\<not> strstart (slide_window s) \<ge> w_size (slide_window s) + MAX_DIST (slide_window s)"
    and "fill_window_loop s = fill_window_loop (slide_window s)"
    and "fill_window s = fill_window (slide_window s)"
    and "unat (w_size s) \<le> unat (strstart s)"
proof -
  note u = stream_ok_unat [OF ok] and d = stream_okD [OF ok]
  have g: "2 * unat (w_size s) - 262 \<le> unat (strstart s)"
    using sl u by (simp add: word_le_nat_alt)
  then show "unat (w_size s) \<le> unat (strstart s)" using d by simp
  then have "w_size s \<le> strstart s" by (simp add: word_le_nat_alt)
  then show a: "unat (strstart (slide_window s)) = unat (strstart s) - unat (w_size s)"
    by (simp add: slide_window_fields unat_sub)
  have "unat (strstart (slide_window s)) + unat (lookahead (slide_window s)) \<le>
        unat (window_size (slide_window s))"
    using a d u g by (simp add: slide_window_fields)
  then show k: "stream_ok (slide_window s)"
    using d(1-3) by (intro stream_okI) (simp_all add: slide_window_fields)
  have "unat (strstart (slide_window s)) < 2 * unat (w_size s) - 262"
    using a d u by simp
  then show n: "\<not> strstart (slide_window s) \<ge> w_size (slide_window s) + MAX_DIST (slide_window s)"
    using u by (simp add: slide_window_fields word_le_nat_alt)
  have m1: "fill_window_more s =
      (slide_window s, window_size s - lookahead s - strstart s + w_size s)"
    using sl by (simp add: fill_window_more_def Let_def)
  have m2: "fill_window_more (slide_window s) =
      (slide_window s, window_size s - lookahead s - strstart s + w_size s)"
    using n by (simp add: fill_window_more_def Let_def slide_window_fields)
  show "fill_window_loop s = fill_window_loop (slide_window s)"
    by (subst fill_window_loop.simps, subst (2) fill_window_loop.simps) (simp add: m1 m2)
  then show "fill_window s = fill_window (slide_window s)"
    by (simp add: fill_window_def)
qed

lemma fill_window_high_water_fields:
  "strstart (fill_window_high_water s) = strstart s"
  "match_start (fill_window_high_water s) = match_start s"
  "block_start (fill_window_high_water s) = block_start s"
  "w_size (fill_window_high_water s) = w_size s"
  "window_size (fill_window_high_water s) = window_size s"
  "lookahead (fill_window_high_water s) = lookahead s"
  "avail_in (fill_window_high_water s) = avail_in s"
  "pending_buf_size (fill_window_high_water s) = pending_buf_size s"
  "insert (fill_window_high_water s) = insert s"
  "head (fill_window_high_water s) = head s" "prev (fill_window_high_water s) = prev s"
  by (simp_all add: fill_window_high_water_def Let_def)

lemma fill_window_high_water_window:
  assumes "stream_ok s" and "i < unat (strstart s) + unat (lookahead s)"
  shows "window (fill_window_high_water s) i = window s i"
proof -
  have "unat (strstart s) + unat (lookahead s) < 2 ^ 32"
    using stream_okD [OF assms(1)] stream_ok_unat [OF assms(1)] by simp
  then have c: "unat (strstart s + lookahead s) = unat (strstart s) + unat (lookahead s)"
    by (simp add: unat_add_lem [THEN iffD1])
  show ?thesis
    using assms(2) c
    by (auto simp add: fill_window_high_water_def Let_def memset_def word_less_nat_alt)
qed

lemma fills_high_water:
  assumes "stream_ok s"
  shows "fills s (fill_window_high_water s)" and "stream_ok (fill_window_high_water s)"
proof -
  show "fills s (fill_window_high_water s)"
    unfolding fills_def
    by (simp add: fill_window_high_water_fields fill_window_high_water_window [OF assms])
  show "stream_ok (fill_window_high_water s)"
    using stream_okD [OF assms] by (intro stream_okI) (simp_all add: fill_window_high_water_fields)
qed

lemma fill_window_no_slide:
  assumes "stream_ok s" and "\<not> strstart s \<ge> w_size s + MAX_DIST s"
  shows "\<exists>s'. fill_window s = Some s' \<and> fills s s' \<and> stream_ok s'"
proof -
  obtain s1 where l: "fill_window_loop s = Some s1" "fills s s1" "stream_ok s1"
    using fill_window_loop_no_slide [OF assms] by blast
  have "fill_window s = Some (fill_window_high_water s1)"
    by (simp add: fill_window_def l(1))
  then show ?thesis
    using fills_trans [OF l(2) fills_high_water(1) [OF l(3)]] fills_high_water(2) [OF l(3)]
    by blast
qed

lemma fill_window_total:
  assumes "stream_ok s"
  shows "\<exists>s'. fill_window s = Some s' \<and> stream_ok s' \<and>
           fills (if strstart s \<ge> w_size s + MAX_DIST s then slide_window s else s) s'"
proof (cases "strstart s \<ge> w_size s + MAX_DIST s")
  case True
  note k = slide_window_ok [OF assms True]
  show ?thesis
    using fill_window_no_slide [OF k(2,3)] True k(5) by auto
next
  case False
  then show ?thesis using fill_window_no_slide [OF assms False] by auto
qed

lemma unat_w_size_init:
  assumes "9 \<le> b" and "b \<le> 15"
  shows "512 \<le> unat (push_bit (nat b) 1 :: u32) \<and> unat (push_bit (nat b) 1 :: u32) \<le> 32768"
proof -
  have "nat b = 9 \<or> nat b = 10 \<or> nat b = 11 \<or> nat b = 12 \<or> nat b = 13 \<or>
        nat b = 14 \<or> nat b = 15"
    using assms by linarith
  then show ?thesis by (elim disjE) simp_all
qed

lemma deflateReset_fields:
  "fst (deflateReset ops t) = Z_OK"
  "w_size (snd (deflateReset ops t)) = w_size t"
  "window_size (snd (deflateReset ops t)) = 2 * w_size t"
  "strstart (snd (deflateReset ops t)) = 0"
  "lookahead (snd (deflateReset ops t)) = 0"
  by (simp_all add: deflateReset_def deflateResetKeep_def lm_init_def CLEAR_HASH_def Let_def)

lemma deflateInit2_stream_ok:
  assumes "deflateInit2 ops strm lvl method wbits memLevel strategy0 = (Z_OK, s)"
  shows "stream_ok s"
proof -
  define wb where "wb = (if wbits < 0 then - wbits else wbits)"
  define b where "b = (if wb = 8 then 9 else wb)"
  define g where "g \<longleftrightarrow> memLevel < 1 \<or> memLevel > MAX_MEM_LEVEL \<or> method \<noteq> Z_DEFLATED \<or>
            wb < 8 \<or> wb > 15 \<or> (if lvl = Z_DEFAULT_COMPRESSION then 6 else lvl) < 0 \<or>
            (if lvl = Z_DEFAULT_COMPRESSION then 6 else lvl) > 9 \<or>
            strategy0 < 0 \<or> strategy0 > Z_FIXED"
  have ng: "\<not> g"
  proof
    assume g
    then have "fst (deflateInit2 ops strm lvl method wbits memLevel strategy0) = Z_STREAM_ERROR"
      unfolding deflateInit2_def Let_def g_def wb_def by simp
    then show False using assms by simp
  qed
  then have r: "9 \<le> b" "b \<le> 15" by (auto simp add: b_def g_def)
  have f: "w_size (snd (deflateInit2 ops strm lvl method wbits memLevel strategy0)) =
             push_bit (nat b) 1"
    "window_size (snd (deflateInit2 ops strm lvl method wbits memLevel strategy0)) =
       2 * w_size (snd (deflateInit2 ops strm lvl method wbits memLevel strategy0))"
    "strstart (snd (deflateInit2 ops strm lvl method wbits memLevel strategy0)) = 0"
    "lookahead (snd (deflateInit2 ops strm lvl method wbits memLevel strategy0)) = 0"
    using ng unfolding deflateInit2_def Let_def g_def wb_def b_def
    by (simp_all add: deflateReset_fields del: push_bit_of_1)
  show ?thesis
    using unat_w_size_init [OF r] f unfolding assms
    by (intro stream_okI) (simp_all del: push_bit_of_1)
qed

text \<open>
  C5. When \<^verbatim>\<open>fill_window\<close> runs with \<open>strstart \<ge> w_size + MAX_DIST\<close> it slides the
  window first and goes on from the stream that the slide leaves: in that stream
  \<open>window[W .. 2W)\<close> has been copied down to \<open>[0 .. W)\<close>; \<open>match_start\<close>,
  \<open>strstart\<close> and \<open>block_start\<close> have decreased by \<open>W\<close>; every entry of \<open>head\<close>
  (below \<open>hash_size\<close>) and of \<open>prev\<close> (below \<open>W\<close>) that was less than \<open>W\<close> is 0
  and every other entry has \<open>W\<close> subtracted. On a stream that satisfies the window
  invariant, \<^verbatim>\<open>fill_window\<close> returns, slides once only, and its result has the three
  positions decreased by \<open>W\<close>, the bytes of the window up to the end of the old
  lookahead copied down by \<open>W\<close>, and, when no string waits for insertion
  (\<open>insert = 0\<close>), the two hash tables rebased as above.
\<close>

theorem fill_window_slide:
  assumes "strstart s \<ge> w_size s + MAX_DIST s"
  shows "fill_window s =
           map_option fill_window_high_water
             (if avail_in s = 0 then Some (slide_window s)
              else
                let s2 = fill_window_read (slide_window s)
                           (window_size s - lookahead s - strstart s + w_size s)
                in if lookahead s2 < MIN_LOOKAHEAD \<and> avail_in s2 \<noteq> 0
                   then fill_window_loop s2 else Some s2) \<and>
         (\<forall>i < unat (w_size s).
            window (slide_window s) i = window s (i + unat (w_size s))) \<and>
         match_start (slide_window s) = match_start s - w_size s \<and>
         strstart (slide_window s) = strstart s - w_size s \<and>
         block_start (slide_window s) = block_start s - uint (w_size s) \<and>
         (\<forall>i < unat (hash_size s).
            unat (head (slide_window s) i) =
              (if unat (head s i) < unat (w_size s) then 0
               else unat (head s i) - unat (w_size s))) \<and>
         (\<forall>i < unat (w_size s).
            unat (prev (slide_window s) i) =
              (if unat (prev s i) < unat (w_size s) then 0
               else unat (prev s i) - unat (w_size s))) \<and>
         (stream_ok s \<longrightarrow>
            fill_window s = fill_window (slide_window s) \<and>
            \<not> strstart (slide_window s) \<ge> w_size (slide_window s) + MAX_DIST (slide_window s) \<and>
            (\<exists>s'. fill_window s = Some s' \<and>
               strstart s' = strstart s - w_size s \<and>
               match_start s' = match_start s - w_size s \<and>
               block_start s' = block_start s - uint (w_size s) \<and>
               (\<forall>i < unat (strstart s - w_size s) + unat (lookahead s).
                  window s' i = window s (i + unat (w_size s))) \<and>
               (insert s = 0 \<longrightarrow>
                  (\<forall>i < unat (hash_size s).
                     unat (head s' i) =
                       (if unat (head s i) < unat (w_size s) then 0
                        else unat (head s i) - unat (w_size s))) \<and>
                  (\<forall>i < unat (w_size s).
                     unat (prev s' i) =
                       (if unat (prev s i) < unat (w_size s) then 0
                        else unat (prev s i) - unat (w_size s))))))"
proof -
  have m: "fill_window_more s =
           (slide_window s, window_size s - lookahead s - strstart s + w_size s)"
    using assms by (simp add: fill_window_more_def Let_def)
  have l: "fill_window s =
           map_option fill_window_high_water
             (if avail_in s = 0 then Some (slide_window s)
              else
                let s2 = fill_window_read (slide_window s)
                           (window_size s - lookahead s - strstart s + w_size s)
                in if lookahead s2 < MIN_LOOKAHEAD \<and> avail_in s2 \<noteq> 0
                   then fill_window_loop s2 else Some s2)"
    unfolding fill_window_def
    by (subst fill_window_loop.simps) (simp add: m avail_in_slide_window)
  note t = slide_window_tables [of s]
  have f: "match_start (slide_window s) = match_start s - w_size s"
    "strstart (slide_window s) = strstart s - w_size s"
    "block_start (slide_window s) = block_start s - uint (w_size s)"
    by (simp_all add: slide_window_fields)
  have g: "fill_window s = fill_window (slide_window s) \<and>
            \<not> strstart (slide_window s) \<ge> w_size (slide_window s) + MAX_DIST (slide_window s) \<and>
            (\<exists>s'. fill_window s = Some s' \<and>
               strstart s' = strstart s - w_size s \<and>
               match_start s' = match_start s - w_size s \<and>
               block_start s' = block_start s - uint (w_size s) \<and>
               (\<forall>i < unat (strstart s - w_size s) + unat (lookahead s).
                  window s' i = window s (i + unat (w_size s))) \<and>
               (insert s = 0 \<longrightarrow>
                  (\<forall>i < unat (hash_size s).
                     unat (head s' i) =
                       (if unat (head s i) < unat (w_size s) then 0
                        else unat (head s i) - unat (w_size s))) \<and>
                  (\<forall>i < unat (w_size s).
                     unat (prev s' i) =
                       (if unat (prev s i) < unat (w_size s) then 0
                        else unat (prev s i) - unat (w_size s)))))"
    if ok: "stream_ok s"
  proof -
    note k = slide_window_ok [OF ok assms]
    obtain s' where r: "fill_window (slide_window s) = Some s'" "fills (slide_window s) s'"
      using fill_window_no_slide [OF k(2,3)] by blast
    have a: "strstart s' = strstart (slide_window s)" "match_start s' = match_start (slide_window s)"
      "block_start s' = block_start (slide_window s)"
      "\<forall>i < unat (strstart (slide_window s)) + unat (lookahead (slide_window s)).
         window s' i = window (slide_window s) i"
      "insert (slide_window s) = 0 \<longrightarrow>
         head s' = head (slide_window s) \<and> prev s' = prev (slide_window s) \<and> insert s' = 0"
      using r(2) unfolding fills_def by blast+
    have le: "unat (strstart s - w_size s) + unat (lookahead s) \<le> unat (w_size s)"
      using k(1,6) stream_okD(4) [OF ok] stream_ok_unat(1) [OF ok]
      by (simp add: slide_window_fields)
    have w: "\<forall>i < unat (strstart s - w_size s) + unat (lookahead s).
                  window s' i = window s (i + unat (w_size s))"
      using a(4) t(1) le by (simp add: slide_window_fields)
    have h: "insert s = 0 \<longrightarrow>
                  (\<forall>i < unat (hash_size s).
                     unat (head s' i) =
                       (if unat (head s i) < unat (w_size s) then 0
                        else unat (head s i) - unat (w_size s))) \<and>
                  (\<forall>i < unat (w_size s).
                     unat (prev s' i) =
                       (if unat (prev s i) < unat (w_size s) then 0
                        else unat (prev s i) - unat (w_size s)))"
      using a(5) t(2,3) by (simp add: slide_window_fields)
    from k(3,5) r(1) a(1-3) w h show ?thesis
      by (simp add: slide_window_fields)
  qed
  from l t f g show ?thesis by blast
qed

lemma slide_example_fields:
  "w_size slide_example = 512" "hash_size slide_example = 32768"
  "strstart slide_example = 800" "match_start slide_example = 700"
  "block_start slide_example = 600" "MAX_DIST slide_example = 250"
  "head slide_example = (\<lambda>i. if i = 5 then 700 else if i = 6 then 100 else 0)"
  "prev slide_example = (\<lambda>i. if i = 7 then 520 else 0)"
  "window slide_example = (\<lambda>i. of_nat (i div 3))"
  "lookahead slide_example = 100" "window_size slide_example = 1024"
  "insert slide_example = 0" "avail_in slide_example = 0"
  by (simp_all add: slide_example_def init_stream_6_9_8 MAX_DIST_def match_defs)

theorem fill_window_slide_witness:
  "strstart slide_example \<ge> w_size slide_example + MAX_DIST slide_example \<and>
   stream_ok slide_example \<and> insert slide_example = 0 \<and>
   window slide_example 3 = 1 \<and> window slide_example 515 = 171 \<and>
   map_option
     (\<lambda>s. (strstart s, match_start s, block_start s, window s 3,
           unat (head s 5), unat (head s 6), unat (prev s 7)))
     (fill_window slide_example) = Some (288, 188, 88, 171, 188, 0, 8)"
proof -
  have c: "strstart slide_example \<ge> w_size slide_example + MAX_DIST slide_example"
    by (simp add: slide_example_fields)
  have ok: "stream_ok slide_example"
    by (simp add: stream_ok_def slide_example_fields)
  from fill_window_slide [OF c] ok obtain s' where
    r: "fill_window slide_example = Some s'"
      "strstart s' = strstart slide_example - w_size slide_example"
      "match_start s' = match_start slide_example - w_size slide_example"
      "block_start s' = block_start slide_example - uint (w_size slide_example)"
    and w: "\<forall>i < unat (strstart slide_example - w_size slide_example) +
                   unat (lookahead slide_example).
              window s' i = window slide_example (i + unat (w_size slide_example))"
    and h: "insert slide_example = 0 \<longrightarrow>
         (\<forall>i < unat (hash_size slide_example).
            unat (head s' i) =
              (if unat (head slide_example i) < unat (w_size slide_example) then 0
               else unat (head slide_example i) - unat (w_size slide_example))) \<and>
         (\<forall>i < unat (w_size slide_example).
            unat (prev s' i) =
              (if unat (prev slide_example i) < unat (w_size slide_example) then 0
               else unat (prev slide_example i) - unat (w_size slide_example)))"
    by blast
  have w3: "window s' 3 = 171" using w by (simp add: slide_example_fields)
  have h5: "unat (head s' 5) = 188" "unat (head s' 6) = 0" "unat (prev s' 7) = 8"
    using h by (simp_all add: slide_example_fields)
  show ?thesis
    using c ok r w3 h5 by (simp add: slide_example_fields)
qed

section \<open>Result of the match finder\<close>









section \<open>Evaluation of the session driver on the concrete streams\<close>

lemma null_trees_simps:
  "tr_init null_trees s = (tr s)\<lparr>last_lit := 0\<rparr>"
  "tr_flush_block null_trees s buf len is_last = (tr s)\<lparr>last_lit := 0\<rparr>"
  "tr_stored_block null_trees s buf len is_last = tr s"
  "tr_align null_trees s = tr s"
  "tr_flush_bits null_trees s = tr s"
  "length_code null_trees b = 0"
  "d_code null_trees d = 0"
  by (simp_all add: null_trees_def)

lemma zero_trees_fields:
  "pending zero_trees = []" "last_lit zero_trees = 0"
  by (simp_all add: zero_trees_def)

lemma finished_example_fields:
  "lookahead finished_example = 0" "strstart finished_example = 0"
  "avail_in finished_example = 0" "avail_out finished_example = 10"
  "status finished_example = BUSY_STATE" "last_flush finished_example = 0"
  "next_out finished_example = Some []" "next_in finished_example = Some []"
  "tr finished_example = zero_trees" "strategy finished_example = 0"
  "level finished_example = 6" "match_available finished_example = 0"
  "block_start finished_example = 0" "insert finished_example = 0"
  "window_size finished_example = 1024" "w_size finished_example = 512"
  "high_water finished_example = 0" "window finished_example = (\<lambda>i. 0)"
  by (simp_all add: finished_example_def init_stream_6_9_8)

lemma fill_window_finished_example:
  "fill_window (finished_example\<lparr>last_flush := 4\<rparr>) =
     Some (finished_example\<lparr>last_flush := 4, window := (\<lambda>i. 0), high_water := 258\<rparr>)"
  apply (simp add: fill_window_def)
  apply (subst fill_window_loop.simps)
  apply (simp add: fill_window_more_def finished_example_fields MAX_DIST_def match_defs
      fill_window_high_water_def memset_def Let_def)
  done

lemma deflate_slow_loop_finished_example:
  "deflate_slow_loop null_trees (finished_example\<lparr>last_flush := 4\<rparr>) 4 =
     Some (Break (finished_example\<lparr>last_flush := 4, window := (\<lambda>i. 0), high_water := 258\<rparr>))"
  apply (subst deflate_slow_loop.simps)
  apply (simp add: lookahead_fill_def fill_window_finished_example finished_example_fields
      match_defs flush_defs)
  done

lemma deflate_slow_finished_example:
  "deflate_slow null_trees (finished_example\<lparr>last_flush := 4\<rparr>) 4 =
     Some (finish_done,
           finished_example
             \<lparr>last_flush := 4, window := (\<lambda>i. 0), high_water := 258, insert := 0,
              tr := zero_trees\<lparr>last_lit := 0\<rparr>, block_start := 0\<rparr>)"
  by (simp add: deflate_slow_def deflate_slow_loop_finished_example deflate_slow_tail_def
      finished_example_fields set_insert_min_def finish_blocks_def FLUSH_BLOCK_def
      FLUSH_BLOCK_ONLY_def flush_pending_def null_trees_simps zero_trees_fields
      match_defs flush_defs Let_def)

lemma deflate_finished_example:
  "deflate null_trees finished_example 4 = Some (Z_STREAM_END, finished_stream)"
  by (simp add: deflate_def deflate_compress_def run_engine_def RANK_def
      finished_example_fields zero_trees_fields flush_defs configuration_table_def
      mk_config_def deflate_slow_finished_example finished_stream_def Let_def
      Z_HUFFMAN_ONLY_def Z_RLE_def)

lemma finished_stream_fields:
  "pending (tr finished_stream) = []" "avail_in finished_stream = 0"
  "last_flush finished_stream = 4" "status finished_stream = FINISH_STATE"
  "next_out finished_stream = Some []" "avail_out finished_stream = 10"
  by (simp_all add: finished_stream_def finished_example_fields zero_trees_fields)

section \<open>Calls of \<^verbatim>\<open>deflate\<close> that cannot make progress\<close>

text \<open>
  C10. A call of \<^verbatim>\<open>deflate\<close> with valid arguments (a flush mode in \<open>0..5\<close>, a non-null
  \<open>next_out\<close>, a non-null \<open>next_in\<close> unless \<open>avail_in = 0\<close>, and no flush other than
  \<^verbatim>\<open>Z_FINISH\<close> once the stream is finished) and \<open>avail_out = 0\<close> returns
  \<^verbatim>\<open>Z_BUF_ERROR\<close> at once. The stream is unchanged except for the error message: no
  input is consumed, no output is produced, \<open>total_in\<close>, \<open>total_out\<close> and the
  compression state are as before.
\<close>

theorem deflate_no_output_space:
  assumes "0 \<le> flush" and "flush \<le> Z_BLOCK"
    and "next_out s \<noteq> None"
    and "next_in s \<noteq> None \<or> avail_in s = 0"
    and "status s \<noteq> FINISH_STATE \<or> flush = Z_FINISH"
    and "avail_out s = 0"
  shows "deflate ops s flush = Some (Z_BUF_ERROR, s\<lparr>msg := Some Z_BUF_ERROR\<rparr>)"
  using assms by (auto simp add: deflate_def ERR_RETURN_def)

theorem deflate_no_output_space_witness:
  "0 \<le> Z_NO_FLUSH \<and> Z_NO_FLUSH \<le> Z_BLOCK \<and> next_out full_output_example = Some [] \<and>
   next_in full_output_example = Some [1, 2, 3] \<and>
   status full_output_example = BUSY_STATE \<and>
   avail_out full_output_example = 0 \<and>
   deflate null_trees full_output_example Z_NO_FLUSH =
     Some (Z_BUF_ERROR, full_output_example\<lparr>msg := Some Z_BUF_ERROR\<rparr>)"
proof -
  have f: "next_out full_output_example = Some []"
    "next_in full_output_example = Some [1, 2, 3]"
    "status full_output_example = BUSY_STATE"
    "avail_out full_output_example = 0"
    by (simp_all add: full_output_example_def init_stream_6_9_8)
  have p: "0 \<le> Z_NO_FLUSH" "Z_NO_FLUSH \<le> Z_BLOCK" "next_out full_output_example \<noteq> None"
    "next_in full_output_example \<noteq> None \<or> avail_in full_output_example = 0"
    "status full_output_example \<noteq> FINISH_STATE \<or> Z_NO_FLUSH = Z_FINISH"
    "avail_out full_output_example = 0"
    by (simp_all add: f flush_defs)
  show ?thesis
    using deflate_no_output_space [OF p, of null_trees] f by (simp add: flush_defs)
qed

text \<open>
  C3 (as amended). When \<^verbatim>\<open>deflate\<close> is called with arguments that pass its validation (a
  flush mode in \<open>0..5\<close>, a non-null \<open>next_out\<close>, a stream that is not finished), no
  pending output, \<open>avail_in = 0\<close>, \<open>RANK(flush) \<le> RANK(last_flush)\<close> and
  \<open>flush \<noteq> Z_FINISH\<close>, the call fails with \<^verbatim>\<open>Z_BUF_ERROR\<close> and produces no output:
  only \<open>last_flush\<close> and the error message change.
\<close>

theorem deflate_redundant_flush:
  assumes "0 \<le> flush" and "flush \<le> Z_BLOCK"
    and "next_out s \<noteq> None"
    and "status s \<noteq> FINISH_STATE"
    and "pending (tr s) = []"
    and "avail_in s = 0"
    and "RANK flush \<le> RANK (last_flush s)"
    and "flush \<noteq> Z_FINISH"
  shows "deflate ops s flush =
           Some (Z_BUF_ERROR,
                 (if avail_out s = 0 then s else s\<lparr>last_flush := flush\<rparr>)
                   \<lparr>msg := Some Z_BUF_ERROR\<rparr>)"
  using assms by (auto simp add: deflate_def ERR_RETURN_def Let_def)

theorem deflate_redundant_flush_witness:
  "0 \<le> Z_SYNC_FLUSH \<and> Z_SYNC_FLUSH \<le> Z_BLOCK \<and> next_out repeated_sync_example \<noteq> None \<and>
   status repeated_sync_example \<noteq> FINISH_STATE \<and> pending (tr repeated_sync_example) = [] \<and>
   avail_in repeated_sync_example = 0 \<and>
   RANK Z_SYNC_FLUSH \<le> RANK (last_flush repeated_sync_example) \<and> Z_SYNC_FLUSH \<noteq> Z_FINISH \<and>
   deflate null_trees repeated_sync_example Z_SYNC_FLUSH =
     Some (Z_BUF_ERROR, repeated_sync_example\<lparr>msg := Some Z_BUF_ERROR\<rparr>)"
proof -
  have p: "0 \<le> Z_SYNC_FLUSH" "Z_SYNC_FLUSH \<le> Z_BLOCK" "next_out repeated_sync_example \<noteq> None"
    "status repeated_sync_example \<noteq> FINISH_STATE" "pending (tr repeated_sync_example) = []"
    "avail_in repeated_sync_example = 0"
    "RANK Z_SYNC_FLUSH \<le> RANK (last_flush repeated_sync_example)" "Z_SYNC_FLUSH \<noteq> Z_FINISH"
    by (simp_all add: repeated_sync_example_def finished_example_fields zero_trees_fields
        flush_defs)
  have "avail_out repeated_sync_example \<noteq> 0"
    by (simp add: repeated_sync_example_def finished_example_fields)
  then show ?thesis
    using deflate_redundant_flush [OF p, of null_trees] p
    by (simp add: repeated_sync_example_def)
qed

text \<open>
  The claim C3 as stated fails on a finished stream. The first call below finishes an
  empty stream; the second call, with \<^verbatim>\<open>Z_NO_FLUSH\<close>, meets every condition of the claim
  and returns \<^verbatim>\<open>Z_STREAM_ERROR\<close> from the validation at the head of \<^verbatim>\<open>deflate\<close>.
\<close>

theorem deflate_redundant_flush_counterexample:
  "deflate null_trees finished_example Z_FINISH = Some (Z_STREAM_END, finished_stream) \<and>
   pending (tr finished_stream) = [] \<and> avail_in finished_stream = 0 \<and>
   RANK Z_NO_FLUSH \<le> RANK (last_flush finished_stream) \<and> Z_NO_FLUSH \<noteq> Z_FINISH \<and>
   deflate null_trees finished_stream Z_NO_FLUSH =
     Some (Z_STREAM_ERROR, finished_stream\<lparr>msg := Some Z_STREAM_ERROR\<rparr>)"
proof -
  have a: "deflate null_trees finished_example Z_FINISH = Some (Z_STREAM_END, finished_stream)"
    by (simp add: flush_defs deflate_finished_example)
  have b: "deflate null_trees finished_stream Z_NO_FLUSH =
             Some (Z_STREAM_ERROR, finished_stream\<lparr>msg := Some Z_STREAM_ERROR\<rparr>)"
    by (simp add: deflate_def finished_stream_fields ERR_RETURN_def flush_defs)
  have c: "pending (tr finished_stream) = [] \<and> avail_in finished_stream = 0 \<and>
           RANK Z_NO_FLUSH \<le> RANK (last_flush finished_stream) \<and> Z_NO_FLUSH \<noteq> Z_FINISH"
    by (simp add: finished_stream_fields RANK_def flush_defs)
  from a b c show ?thesis by simp
qed

section \<open>The lazy engine commits the previous match\<close>



lemma insert_all_fields [simp]:
  "strstart (insert_all s ps) = strstart s"
  "prev_length (insert_all s ps) = prev_length s"
  "lookahead (insert_all s ps) = lookahead s"
  "match_available (insert_all s ps) = match_available s"
  "match_length (insert_all s ps) = match_length s"
  "tr (insert_all s ps) = tr s"
  unfolding insert_all_def
  by (induction ps arbitrary: s) (simp_all add: INSERT_STRING_def Let_def)








lemma FLUSH_BLOCK_frame:
  "strstart (ctl_state (FLUSH_BLOCK ops s b)) = strstart s \<and>
   lookahead (ctl_state (FLUSH_BLOCK ops s b)) = lookahead s \<and>
   match_available (ctl_state (FLUSH_BLOCK ops s b)) = match_available s \<and>
   head (ctl_state (FLUSH_BLOCK ops s b)) = head s \<and>
   prev (ctl_state (FLUSH_BLOCK ops s b)) = prev s \<and>
   ins_h (ctl_state (FLUSH_BLOCK ops s b)) = ins_h s \<and>
   insert (ctl_state (FLUSH_BLOCK ops s b)) = insert s"
  by (simp add: FLUSH_BLOCK_def FLUSH_BLOCK_ONLY_def flush_pending_def Let_def)






section \<open>Dictionary priming\<close>

lemma word_cmp_one:
  "(numeral n :: u32) \<le> 1 \<longleftrightarrow> unat (numeral n :: u32) \<le> 1"
  "(1 :: u32) \<le> numeral n \<longleftrightarrow> 1 \<le> unat (numeral n :: u32)"
  "(numeral n :: u32) < 1 \<longleftrightarrow> unat (numeral n :: u32) < 1"
  "(1 :: u32) < numeral n \<longleftrightarrow> 1 < unat (numeral n :: u32)"
  by (simp_all add: word_le_nat_alt word_less_nat_alt)

lemma dict_insert_loop_inv:
  assumes "\<And>s str. f (dict_link s str) = f s"
  shows "f (fst (dict_insert_loop s str n)) = f s"
proof (induction s str n rule: dict_insert_loop.induct)
  case (1 s str n)
  show ?case
    using 1 assms by (subst dict_insert_loop.simps) (simp add: Let_def)
qed

lemma dict_insert_loop_str: "snd (dict_insert_loop s str n) = str + n"
proof (induction s str n rule: dict_insert_loop.induct)
  case (1 s str n)
  show ?case
    using 1 by (subst dict_insert_loop.simps) (simp add: Let_def)
qed

lemma dict_insert_loop_fields:
  "lookahead (fst (dict_insert_loop s str n)) = lookahead s"
  "avail_in (fst (dict_insert_loop s str n)) = avail_in s"
  "window_size (fst (dict_insert_loop s str n)) = window_size s"
  "w_size (fst (dict_insert_loop s str n)) = w_size s"
  by (rule dict_insert_loop_inv, simp add: dict_link_def Let_def)+

lemma dict_loop_total:
  assumes "stream_ok s"
  shows "\<exists>s'. dict_loop s = Some s'"
  using assms
proof (induction "unat (avail_in s)" arbitrary: s rule: less_induct)
  case less
  note ok = less.prems
  show ?case
  proof (cases "lookahead s \<ge> MIN_MATCH")
    case False
    then show ?thesis by (subst dict_loop.simps) simp
  next
    case True
    define s1 where "s1 = fst (dict_insert_loop s (strstart s) (lookahead s - (MIN_MATCH - 1)))"
    define s3 where "s3 = s1\<lparr>strstart := strstart s + (lookahead s - (MIN_MATCH - 1)),
                              lookahead := MIN_MATCH - 1\<rparr>"
    have f: "avail_in s3 = avail_in s" "window_size s3 = window_size s" "w_size s3 = w_size s"
      "lookahead s3 = 2" "strstart s3 = strstart s + (lookahead s - 2)"
      by (simp_all add: s3_def s1_def dict_insert_loop_fields match_defs)
    note d = stream_okD [OF ok] and u = stream_ok_unat [OF ok]
    have l3: "3 \<le> unat (lookahead s)" using True by (simp add: word_le_nat_alt match_defs)
    then have "(2 :: u32) \<le> lookahead s" by (simp add: word_le_nat_alt)
    then have a: "unat (lookahead s - 2) = unat (lookahead s) - 2" by (simp add: unat_sub)
    have "unat (strstart s) + unat (lookahead s - 2) < 2 ^ 32" using d u a by simp
    then have b: "unat (strstart s3) = unat (strstart s) + (unat (lookahead s) - 2)"
      by (simp add: f unat_add_lem [THEN iffD1] a)
    have "unat (strstart s3) + unat (lookahead s3) \<le> unat (window_size s3)"
      using b d(4) l3 by (simp add: f)
    then have ok3: "stream_ok s3"
      using d(1-3) by (intro stream_okI) (simp_all add: f)
    obtain s4 where r: "fill_window s3 = Some s4" "stream_ok s4"
      "fills (if strstart s3 \<ge> w_size s3 + MAX_DIST s3 then slide_window s3 else s3) s4"
      using fill_window_total [OF ok3] by blast
    have c: "unat (lookahead s4) + unat (avail_in s4) = 2 + unat (avail_in s)"
      "unat (avail_in s4) \<le> unat (avail_in s)"
      using r(3) unfolding fills_def by (auto simp add: slide_window_fields f split: if_splits)
    have e: "dict_loop s = dict_loop s4"
      using True r(1)
      by (subst dict_loop.simps)
        (simp add: split_def Let_def dict_insert_loop_str s3_def [symmetric] s1_def [symmetric])
    show ?thesis
    proof (cases "lookahead s4 \<ge> MIN_MATCH")
      case False
      then have "dict_loop s4 = Some s4" by (subst dict_loop.simps) simp
      then show ?thesis using e by simp
    next
      case True
      then have "3 \<le> unat (lookahead s4)" by (simp add: word_le_nat_alt match_defs)
      then have "unat (avail_in s4) < unat (avail_in s)" using c by simp
      then show ?thesis using less.hyps [OF _ r(2)] e by simp
    qed
  qed
qed

lemma deflateSetDictionary_total:
  assumes "lookahead s = 0" and "stream_ok s"
  shows "\<exists>s'. deflateSetDictionary s dictionary dictLength = Some (Z_OK, s')"
proof -
  define s0 where "s0 =
     (if dictLength \<ge> w_size s
      then (CLEAR_HASH s)\<lparr>strstart := 0, block_start := 0, insert := 0\<rparr> else s)"
  define d0 where "d0 =
     (if dictLength \<ge> w_size s then drop (unat (dictLength - w_size s)) dictionary
      else dictionary)"
  define n0 where "n0 = (if dictLength \<ge> w_size s then w_size s else dictLength)"
  define s1 where "s1 = s0\<lparr>avail_in := n0, next_in := Some d0\<rparr>"
  note d = stream_okD [OF assms(2)]
  have f: "w_size s1 = w_size s" "window_size s1 = window_size s" "lookahead s1 = 0"
    "unat (strstart s1) \<le> unat (strstart s)"
    by (simp_all add: s1_def s0_def CLEAR_HASH_def assms(1))
  have "unat (strstart s1) + unat (lookahead s1) \<le> unat (window_size s1)"
    using d(4) f(4) by (simp add: f(1-3))
  then have ok1: "stream_ok s1" using d(1-3) by (intro stream_okI) (simp_all add: f)
  obtain s2 where r: "fill_window s1 = Some s2" "stream_ok s2"
    using fill_window_total [OF ok1] by blast
  obtain s3 where t: "dict_loop s2 = Some s3"
    using dict_loop_total [OF r(2)] by blast
  show ?thesis
    using assms(1) r(1) t
    by (simp add: deflateSetDictionary_def Let_def split_def s1_def s0_def d0_def n0_def
        CLEAR_HASH_def split: if_splits)
qed

text \<open>
  C9 (as amended). \<^verbatim>\<open>deflateSetDictionary\<close> looks at \<open>lookahead\<close>, not at \<open>total_in\<close>:
  every call on a stream with \<open>lookahead \<noteq> 0\<close> fails with a stream error and leaves the
  stream as it was; a call on a stream with \<open>lookahead = 0\<close> never returns an error,
  whatever input the stream has consumed, and on a stream that satisfies the window
  invariant it returns \<^verbatim>\<open>Z_OK\<close>.
\<close>

theorem deflateSetDictionary_guard:
  "(lookahead s \<noteq> 0 \<longrightarrow>
      deflateSetDictionary s dictionary dictLength = Some (Z_STREAM_ERROR, s)) \<and>
   (lookahead s = 0 \<longrightarrow>
      (\<forall>r s'. deflateSetDictionary s dictionary dictLength = Some (r, s') \<longrightarrow> r = Z_OK)) \<and>
   (lookahead s = 0 \<and> stream_ok s \<longrightarrow>
      (\<exists>s'. deflateSetDictionary s dictionary dictLength = Some (Z_OK, s')))"
proof (intro conjI impI allI)
  assume "lookahead s \<noteq> 0"
  then show "deflateSetDictionary s dictionary dictLength = Some (Z_STREAM_ERROR, s)"
    by (simp add: deflateSetDictionary_def)
next
  fix r s'
  assume l: "lookahead s = 0"
    and d: "deflateSetDictionary s dictionary dictLength = Some (r, s')"
  from d show "r = Z_OK"
    unfolding deflateSetDictionary_def
    by (simp add: l split_def Let_def split: option.splits)
next
  assume "lookahead s = 0 \<and> stream_ok s"
  then show "\<exists>s'. deflateSetDictionary s dictionary dictLength = Some (Z_OK, s')"
    using deflateSetDictionary_total [of s dictionary dictLength] by blast
qed

lemma consumed_example_fields:
  "lookahead consumed_example = 0" "strstart consumed_example = 2"
  "total_in consumed_example = 2" "insert consumed_example = 2"
  "w_size consumed_example = 512" "window_size consumed_example = 1024"
  "avail_in consumed_example = 0" "next_in consumed_example = Some []"
  "high_water consumed_example = 260" "hash_shift consumed_example = 5"
  "hash_mask consumed_example = 32767" "w_mask consumed_example = 511"
  "window consumed_example = (\<lambda>i. if i < 2 then [97, 98] ! i else 0)"
  "ins_h consumed_example = 0" "block_start consumed_example = 2"
  "head consumed_example = (\<lambda>i. 0)" "prev consumed_example = (\<lambda>i. 0)"
  by (simp_all add: consumed_example_def init_stream_6_9_8 head_init_stream_6_9_8)

lemma priming_example_fields:
  "lookahead priming_example = 0" "strstart priming_example = 2"
  "total_in priming_example = 2" "insert priming_example = 2"
  "w_size priming_example = 512" "window_size priming_example = 1024"
  "avail_in priming_example = 1" "next_in priming_example = Some [99]"
  "high_water priming_example = 260" "hash_shift priming_example = 5"
  "hash_mask priming_example = 32767" "w_mask priming_example = 511"
  "window priming_example = (\<lambda>i. if i < 2 then [97, 98] ! i else 0)"
  "ins_h priming_example = 0" "block_start priming_example = 2"
  "head priming_example = (\<lambda>i. 0)" "prev priming_example = (\<lambda>i. 0)"
  by (simp_all add: priming_example_def consumed_example_fields)

lemma fill_window_read_priming_example:
  "fill_window_read priming_example 1022 = primed_read"
  apply (simp add: fill_window_read_def read_buf_def priming_example_fields match_defs Let_def)
  apply (subst fill_insert_loop.simps)
  apply (simp add: fill_insert_step_def UPDATE_HASH_def priming_example_fields match_defs Let_def
      primed_read_def)
  done

lemma primed_read_fields:
  "lookahead primed_read = 1" "strstart primed_read = 2" "avail_in primed_read = 0"
  "high_water primed_read = 260" "window_size primed_read = 1024" "insert primed_read = 1"
  "window primed_read 2 = 99"
  by (simp_all add: primed_read_def priming_example_fields)

lemma fill_window_priming_example:
  "fill_window priming_example =
     Some (primed_read\<lparr>window := memset (window primed_read) 260 0 1, high_water := 261\<rparr>)"
  apply (simp add: fill_window_def)
  apply (subst fill_window_loop.simps)
  apply (simp add: fill_window_more_def priming_example_fields MAX_DIST_def match_defs Let_def
      fill_window_read_priming_example primed_read_fields fill_window_high_water_def)
  done

lemma deflateSetDictionary_consumed_example:
  "map_option (\<lambda>(r, s). (r, strstart s, window s 2, insert s))
     (deflateSetDictionary consumed_example [99] 1) = Some (Z_OK, 3, 99, 1)"
  apply (simp add: deflateSetDictionary_def consumed_example_fields Let_def word_cmp_one
      priming_example_def [symmetric] fill_window_priming_example)
  apply (subst dict_loop.simps)
  apply (simp add: primed_read_fields match_defs memset_def word_cmp_one)
  done


lemma looking_ahead_example_lookahead: "lookahead looking_ahead_example = 5"
  by (simp add: looking_ahead_example_def)

lemma stream_ok_consumed_example: "stream_ok consumed_example"
  by (simp add: stream_ok_def consumed_example_fields)

theorem deflateSetDictionary_guard_witness:
  "lookahead looking_ahead_example \<noteq> 0 \<and>
   deflateSetDictionary looking_ahead_example [99] 1 =
     Some (Z_STREAM_ERROR, looking_ahead_example) \<and>
   lookahead consumed_example = 0 \<and> stream_ok consumed_example \<and>
   total_in consumed_example = 2 \<and>
   map_option fst (deflateSetDictionary consumed_example [99] 1) = Some Z_OK"
proof -
  have a: "lookahead looking_ahead_example \<noteq> 0"
    by (simp add: looking_ahead_example_lookahead)
  have b: "lookahead consumed_example = 0" "total_in consumed_example = 2"
    by (simp_all add: consumed_example_fields)
  obtain s' where c: "deflateSetDictionary consumed_example [99] 1 = Some (Z_OK, s')"
    using deflateSetDictionary_guard [of consumed_example "[99]" 1] b(1)
      stream_ok_consumed_example by blast
  show ?thesis
    using deflateSetDictionary_guard [of looking_ahead_example "[99]" 1] a b c
      stream_ok_consumed_example by simp
qed

text \<open>
  The claim C9 as stated fails on a stream that has consumed input and has no lookahead
  left: with \<open>total_in = 2\<close> the call returns \<^verbatim>\<open>Z_OK\<close>, writes the dictionary byte into
  the window at position 2 and moves \<open>strstart\<close> from 2 to 3 and \<open>insert\<close> from 2 to 1.
\<close>

theorem deflateSetDictionary_counterexample:
  "total_in consumed_example = 2 \<and> strstart consumed_example = 2 \<and>
   window consumed_example 2 = 0 \<and> insert consumed_example = 2 \<and>
   map_option (\<lambda>(r, s). (r, strstart s, window s 2, insert s))
     (deflateSetDictionary consumed_example [99] 1) = Some (Z_OK, 3, 99, 1)"
  by (simp add: consumed_example_fields deflateSetDictionary_consumed_example)

section \<open>The stored engine: block size and \<open>insert\<close>\<close>

lemma FLUSH_BLOCK_not_last:
  "FLUSH_BLOCK ops s False = Return r s' \<Longrightarrow> r = need_more"
  by (simp add: FLUSH_BLOCK_def Let_def split: if_splits)

lemma FLUSH_BLOCK_no_break: "FLUSH_BLOCK ops s b \<noteq> Break s'"
  by (simp add: FLUSH_BLOCK_def Let_def)

lemma deflate_stored_copy_returns:
  "deflate_stored_copy ops s mbs = Return r s' \<Longrightarrow> r = need_more"
  by (auto simp add: deflate_stored_copy_def Let_def
      split: if_splits ctl.splits dest: FLUSH_BLOCK_not_last)

lemma deflate_stored_fill_returns:
  "deflate_stored_fill s flush = Some (Return r s') \<Longrightarrow> r = need_more"
  by (auto simp add: deflate_stored_fill_def split: if_splits option.splits)

lemma deflate_stored_loop_returns:
  assumes "deflate_stored_loop ops s flush mbs = Some (Return r s')"
  shows "r = need_more"
proof -
  have "\<forall>r s'. y = Return r s' \<longrightarrow> r = need_more"
    if "deflate_stored_loop ops s flush mbs = Some y" for y
  proof (rule deflate_stored_loop.raw_induct
      [where P = "\<lambda>ops s flush mbs y. \<forall>r s'. y = Return r s' \<longrightarrow> r = need_more",
       OF _ that], goal_cases)
    case (1 loop ops s flush mbs y)
    show ?case
    proof (cases "deflate_stored_fill s flush")
      case None
      then show ?thesis using 1(2) by simp
    next
      case (Some c)
      show ?thesis
      proof (cases c)
        case (Return r0 s0)
        then show ?thesis
          using 1(2) Some deflate_stored_fill_returns [of s flush r0 s0] by auto
      next
        case (Break s0)
        then show ?thesis using 1(2) Some by auto
      next
        case (Continue s1)
        show ?thesis
        proof (cases "deflate_stored_copy ops s1 mbs")
          case (Return r0 s0)
          then show ?thesis
            using 1(2) Some Continue deflate_stored_copy_returns [of ops s1 mbs r0 s0] by auto
        next
          case (Break s0)
          then show ?thesis using 1(2) Some Continue by auto
        next
          case c: (Continue s2)
          then have "loop ops s2 flush mbs = Some y" using 1(2) Some Continue by simp
          then show ?thesis by (rule 1(1))
        qed
      qed
    qed
  qed
  then show ?thesis using assms by blast
qed

lemma FLUSH_BLOCK_insert:
  "FLUSH_BLOCK ops s x = Return r s' \<Longrightarrow> insert s' = insert s"
  "FLUSH_BLOCK ops s x = Continue s' \<Longrightarrow> insert s' = insert s"
  "FLUSH_BLOCK ops s x = Break s' \<Longrightarrow> insert s' = insert s"
  using FLUSH_BLOCK_frame [of ops s x] by simp_all

lemma finish_blocks_insert: "insert (snd (finish_blocks ops s flush b)) = insert s"
  by (simp add: finish_blocks_def FLUSH_BLOCK_insert split: ctl.splits)

lemma deflate_stored_tail_insert: "insert (snd (deflate_stored_tail ops s flush)) = 0"
  by (simp add: deflate_stored_tail_def Let_def finish_blocks_insert)

lemma deflate_stored_exit:
  assumes "deflate_stored ops s flush = Some (r, s')" and "r \<noteq> need_more"
  shows "insert s' = 0"
proof (cases "deflate_stored_loop ops s flush (stored_max_block_size s)")
  case None
  then show ?thesis using assms by (simp add: deflate_stored_def)
next
  case (Some c)
  show ?thesis
  proof (cases c)
    case (Return r0 s0)
    then have "r0 = need_more" using deflate_stored_loop_returns [of ops s flush _ r0 s0] Some by simp
    then show ?thesis using assms Some Return by (simp add: deflate_stored_def)
  next
    case (Break s0)
    then have "(r, s') = deflate_stored_tail ops s0 flush"
      using assms Some by (simp add: deflate_stored_def)
    then show ?thesis using deflate_stored_tail_insert [of ops s0 flush]
      by (metis snd_conv)
  next
    case (Continue s0)
    then have "(r, s') = deflate_stored_tail ops s0 flush"
      using assms Some by (simp add: deflate_stored_def)
    then show ?thesis using deflate_stored_tail_insert [of ops s0 flush]
      by (metis snd_conv)
  qed
qed

lemma stored_copy_words:
  assumes "0 \<le> block_start s"
    and "uint (strstart s) + uint (lookahead s) < 2 ^ 32"
    and "block_start s + uint mbs < 2 ^ 32"
  shows "uint (strstart s + lookahead s) = uint (strstart s) + uint (lookahead s)"
    and "uint (word_of_int (block_start s) + mbs :: u32) = block_start s + uint mbs"
    and "strstart s + lookahead s - (word_of_int (block_start s) + mbs) =
         word_of_int (bytes_ready s - uint mbs)"
proof -
  show "uint (strstart s + lookahead s) = uint (strstart s) + uint (lookahead s)"
    using assms(2) by (simp add: uint_add_lem [THEN iffD1])
  have e: "(word_of_int (block_start s) + mbs :: u32) = word_of_int (block_start s + uint mbs)"
    by simp
  have "0 \<le> block_start s + uint mbs" using assms(1) by simp
  then have "take_bit LENGTH(32) (block_start s + uint mbs) = block_start s + uint mbs"
    using assms(3) by (simp add: take_bit_int_eq_self)
  then show "uint (word_of_int (block_start s) + mbs :: u32) = block_start s + uint mbs"
    unfolding e uint_word_of_int_eq .
  show "strstart s + lookahead s - (word_of_int (block_start s) + mbs) =
         word_of_int (bytes_ready s - uint mbs)"
    by (simp add: bytes_ready_def)
qed

lemma stored_copy_full_block:
  assumes "lookahead s \<noteq> 0" and "0 \<le> block_start s"
    and "uint (strstart s) + uint (lookahead s) < 2 ^ 32"
    and "block_start s + uint mbs < 2 ^ 32"
    and "uint mbs \<le> bytes_ready s"
  shows "deflate_stored_copy ops s mbs =
           (case FLUSH_BLOCK ops (stored_full_block s mbs) False of
              Continue s' \<Rightarrow>
                if strstart s' - word_of_int (block_start s') \<ge> MAX_DIST s'
                then FLUSH_BLOCK ops s' False else Continue s'
            | other \<Rightarrow> other)"
    and "FLUSH_BLOCK_ONLY ops (stored_full_block s mbs) False =
           flush_pending ops
             ((stored_full_block s mbs)
                \<lparr>tr := tr_flush_block ops (stored_full_block s mbs)
                         (Some (nat (block_start s))) mbs False,
                 block_start := block_start s + uint mbs\<rparr>)"
proof -
  note w = stored_copy_words [OF assms(2,3,4)]
  have c: "word_of_int (block_start s) + mbs \<le> strstart s + lookahead s"
    using assms(5) unfolding word_le_def w(1,2) bytes_ready_def by simp
  show "deflate_stored_copy ops s mbs =
           (case FLUSH_BLOCK ops (stored_full_block s mbs) False of
              Continue s' \<Rightarrow>
                if strstart s' - word_of_int (block_start s') \<ge> MAX_DIST s'
                then FLUSH_BLOCK ops s' False else Continue s'
            | other \<Rightarrow> other)"
    using c by (simp add: deflate_stored_copy_def Let_def stored_full_block_def w(3))
  have "block_start s < 2 ^ 32"
    using assms(4) uint_ge_0 [of mbs] by linarith
  then have b: "block_start s mod 2 ^ 32 = block_start s"
    using assms(2) by (rule_tac mod_pos_pos_trivial)
  then have b: "block_start s mod 4294967296 = block_start s" by simp
  show "FLUSH_BLOCK_ONLY ops (stored_full_block s mbs) False =
           flush_pending ops
             ((stored_full_block s mbs)
                \<lparr>tr := tr_flush_block ops (stored_full_block s mbs)
                         (Some (nat (block_start s))) mbs False,
                 block_start := block_start s + uint mbs\<rparr>)"
    using assms(2) by (simp add: FLUSH_BLOCK_ONLY_def Let_def stored_full_block_def w(2) b)
qed

lemma stored_copy_partial_block:
  assumes "lookahead s \<noteq> 0" and "0 \<le> block_start s"
    and "uint (strstart s) + uint (lookahead s) < 2 ^ 32"
    and "block_start s + uint mbs < 2 ^ 32"
    and "bytes_ready s < uint mbs"
  shows "deflate_stored_copy ops s mbs =
           (if strstart s + lookahead s - word_of_int (block_start s) \<ge> MAX_DIST s
            then FLUSH_BLOCK ops (s\<lparr>strstart := strstart s + lookahead s, lookahead := 0\<rparr>) False
            else Continue (s\<lparr>strstart := strstart s + lookahead s, lookahead := 0\<rparr>))"
proof -
  note w = stored_copy_words [OF assms(2,3,4)]
  have c: "\<not> word_of_int (block_start s) + mbs \<le> strstart s + lookahead s"
    using assms(5) unfolding word_le_def w(1,2) bytes_ready_def by simp
  have "uint (lookahead s) \<noteq> 0" using assms(1) by (simp add: uint_0_iff)
  then have "0 < uint (lookahead s)" using uint_ge_0 [of "lookahead s"] by linarith
  then have "uint (strstart s + lookahead s) \<noteq> 0"
    unfolding w(1) using uint_ge_0 [of "strstart s"] by linarith
  then have z: "strstart s + lookahead s \<noteq> 0" by auto
  show ?thesis
    using c z by (simp add: deflate_stored_copy_def Let_def MAX_DIST_def)
qed

lemma deflate_stored_fill_lookahead:
  "deflate_stored_fill s0 flush = Some (Continue s) \<Longrightarrow> lookahead s \<noteq> 0"
  by (auto simp add: deflate_stored_fill_def split: if_splits option.splits)

lemma unat_stored_max_block_size:
  "unat (stored_max_block_size s) = min 65535 (unat (pending_buf_size s - 5))"
  by (simp add: stored_max_block_size_def Let_def word_less_nat_alt min_def)

lemma fill_window_more_pending_buf_size:
  "pending_buf_size (fst (fill_window_more s)) = pending_buf_size s"
  by (simp add: fill_window_more_def Let_def slide_window_fields)

lemma fill_window_loop_pending_buf_size:
  assumes "fill_window_loop s = Some s'"
  shows "pending_buf_size s' = pending_buf_size s"
proof -
  have "pending_buf_size y = pending_buf_size s" if "fill_window_loop s = Some y" for y
  proof (rule fill_window_loop.raw_induct
      [where P = "\<lambda>s y. pending_buf_size y = pending_buf_size s", OF _ that], goal_cases)
    case (1 loop s y)
    obtain s1 nmore where m: "fill_window_more s = (s1, nmore)" by (metis prod.exhaust)
    then have p1: "pending_buf_size s1 = pending_buf_size s"
      using fill_window_more_pending_buf_size [of s] by simp
    show ?case
    proof (cases "avail_in s1 = 0")
      case True
      then show ?thesis using 1(2) m p1 by simp
    next
      case False
      define s2 where "s2 = fill_window_read s1 nmore"
      have p2: "pending_buf_size s2 = pending_buf_size s"
        by (simp add: s2_def fill_window_read_fields p1)
      show ?thesis
      proof (cases "lookahead s2 < MIN_LOOKAHEAD \<and> avail_in s2 \<noteq> 0")
        case True
        then have "loop s2 = Some y" using 1(2) m False by (simp add: s2_def Let_def)
        then show ?thesis using 1(1) p2 by simp
      next
        case c: False
        then have "y = s2" using 1(2) m False by (auto simp add: s2_def Let_def)
        then show ?thesis using p2 by simp
      qed
    qed
  qed
  then show ?thesis using assms by blast
qed

lemma fill_window_pending_buf_size:
  "fill_window s = Some s' \<Longrightarrow> pending_buf_size s' = pending_buf_size s"
  using fill_window_loop_pending_buf_size
  by (auto simp add: fill_window_def fill_window_high_water_fields)

lemma deflate_stored_fill_pending_buf_size:
  "deflate_stored_fill s flush = Some c \<Longrightarrow> pending_buf_size (ctl_state c) = pending_buf_size s"
  by (auto simp add: deflate_stored_fill_def fill_window_pending_buf_size
      split: if_splits option.splits)

lemma FLUSH_BLOCK_pending_buf_size:
  "pending_buf_size (ctl_state (FLUSH_BLOCK ops s b)) = pending_buf_size s"
  by (simp add: FLUSH_BLOCK_def FLUSH_BLOCK_ONLY_def flush_pending_def Let_def)

lemma second_flush_pending_buf_size:
  "pending_buf_size
     (ctl_state (case c of
                   Continue s \<Rightarrow> if g s then FLUSH_BLOCK ops s False else Continue s
                 | Return r s \<Rightarrow> Return r s
                 | Break s \<Rightarrow> Break s)) = pending_buf_size (ctl_state c)"
  by (cases c) (simp_all add: FLUSH_BLOCK_pending_buf_size)

lemma deflate_stored_copy_pending_buf_size:
  "pending_buf_size (ctl_state (deflate_stored_copy ops s mbs)) = pending_buf_size s"
  unfolding deflate_stored_copy_def Let_def
  by (simp only: second_flush_pending_buf_size)
     (simp add: FLUSH_BLOCK_pending_buf_size)

lemma stored_max_block_size_cong:
  "pending_buf_size a = pending_buf_size b \<Longrightarrow> stored_max_block_size a = stored_max_block_size b"
  by (simp add: stored_max_block_size_def)

lemma deflate_stored_pass:
  assumes "deflate_stored_fill s flush = Some (Continue s1)"
  shows "deflate_stored ops s flush =
           stored_resume ops flush (deflate_stored_copy ops s1 (stored_max_block_size s))"
proof (cases "deflate_stored_copy ops s1 (stored_max_block_size s)")
  case (Return r s')
  then show ?thesis
    using assms unfolding deflate_stored_def
    by (subst deflate_stored_loop.simps) (simp add: stored_resume_def)
next
  case (Break s')
  then show ?thesis
    using assms unfolding deflate_stored_def
    by (subst deflate_stored_loop.simps) (simp add: stored_resume_def)
next
  case (Continue s2)
  have "pending_buf_size s2 = pending_buf_size s1"
    using deflate_stored_copy_pending_buf_size [of ops s1 "stored_max_block_size s"] Continue
    by simp
  moreover have "pending_buf_size s1 = pending_buf_size s"
    using deflate_stored_fill_pending_buf_size [OF assms] by simp
  ultimately have m: "stored_max_block_size s2 = stored_max_block_size s"
    by (intro stored_max_block_size_cong) simp
  show ?thesis
    using assms Continue unfolding deflate_stored_def [of ops s]
    by (subst deflate_stored_loop.simps) (simp add: stored_resume_def deflate_stored_def m)
qed

lemma deflate_stored_leave:
  assumes "deflate_stored_fill s flush = Some (Return r s1)"
  shows "deflate_stored ops s flush = Some (r, s1)"
  using assms unfolding deflate_stored_def
  by (subst deflate_stored_loop.simps) simp

text \<open>
  C2 (as amended). \<^verbatim>\<open>deflate_stored\<close> closes a full block exactly when
  \<^verbatim>\<open>max_block_size\<close> bytes are ready, where \<^verbatim>\<open>max_block_size\<close> is the smaller of 65535
  and \<^verbatim>\<open>pending_buf_size - 5\<close> (unsigned 32-bit arithmetic), not the constant 65530.
  When a pass of its loop gets past the filling of the window, with the positions not
  wrapping around: if at least \<^verbatim>\<open>max_block_size\<close> bytes are ready since
  \<open>block_start\<close>, the engine flushes a block of exactly \<^verbatim>\<open>max_block_size\<close> bytes
  starting at \<open>block_start\<close>, keeps the other bytes as lookahead, and goes on from
  there; with fewer bytes ready all of them join the block, which is flushed only if it
  has reached \<^verbatim>\<open>MAX_DIST\<close> bytes, and the engine goes on. When the filling of the
  window ends the call with \<^verbatim>\<open>need_more\<close>, the engine returns the stream as
  \<^verbatim>\<open>fill_window\<close> left it, \<open>insert\<close> included. When it ends the loop, the engine
  runs the statements after the loop, which set \<open>insert = 0\<close>; and every exit with a
  result other than \<^verbatim>\<open>need_more\<close> leaves \<open>insert = 0\<close>.
\<close>

theorem deflate_stored_blocks:
  "unat (stored_max_block_size s) = min 65535 (unat (pending_buf_size s - 5)) \<and>
   (deflate_stored_fill s flush = Some (Continue t) \<and> 0 \<le> block_start t \<and>
    uint (strstart t) + uint (lookahead t) < 2 ^ 32 \<and>
    block_start t + uint (stored_max_block_size s) < 2 ^ 32 \<longrightarrow>
      (uint (stored_max_block_size s) \<le> bytes_ready t \<longrightarrow>
         deflate_stored ops s flush =
           stored_resume ops flush
             (case FLUSH_BLOCK ops (stored_full_block t (stored_max_block_size s)) False of
                Continue s' \<Rightarrow>
                  if strstart s' - word_of_int (block_start s') \<ge> MAX_DIST s'
                  then FLUSH_BLOCK ops s' False else Continue s'
              | other \<Rightarrow> other) \<and>
         FLUSH_BLOCK_ONLY ops (stored_full_block t (stored_max_block_size s)) False =
           flush_pending ops
             ((stored_full_block t (stored_max_block_size s))
                \<lparr>tr := tr_flush_block ops (stored_full_block t (stored_max_block_size s))
                         (Some (nat (block_start t))) (stored_max_block_size s) False,
                 block_start := block_start t + uint (stored_max_block_size s)\<rparr>)) \<and>
      (bytes_ready t < uint (stored_max_block_size s) \<longrightarrow>
         deflate_stored ops s flush =
           stored_resume ops flush
             (if strstart t + lookahead t - word_of_int (block_start t) \<ge> MAX_DIST t
              then FLUSH_BLOCK ops (t\<lparr>strstart := strstart t + lookahead t, lookahead := 0\<rparr>)
                     False
              else Continue (t\<lparr>strstart := strstart t + lookahead t, lookahead := 0\<rparr>)))) \<and>
   (deflate_stored_fill s flush = Some (Return need_more t) \<longrightarrow>
      deflate_stored ops s flush = Some (need_more, t)) \<and>
   (deflate_stored_fill s flush = Some (Break t) \<longrightarrow>
      deflate_stored ops s flush = Some (deflate_stored_tail ops t flush) \<and>
      insert (snd (deflate_stored_tail ops t flush)) = 0) \<and>
   (\<forall>r s'. deflate_stored ops s flush = Some (r, s') \<and> r \<noteq> need_more \<longrightarrow> insert s' = 0)"
proof (intro conjI impI allI)
  show "unat (stored_max_block_size s) = min 65535 (unat (pending_buf_size s - 5))"
    by (rule unat_stored_max_block_size)
next
  assume a: "deflate_stored_fill s flush = Some (Continue t) \<and> 0 \<le> block_start t \<and>
    uint (strstart t) + uint (lookahead t) < 2 ^ 32 \<and>
    block_start t + uint (stored_max_block_size s) < 2 ^ 32"
    and b: "uint (stored_max_block_size s) \<le> bytes_ready t"
  from a have f: "deflate_stored_fill s flush = Some (Continue t)" by blast
  then have l: "lookahead t \<noteq> 0" by (rule deflate_stored_fill_lookahead)
  from a have h: "0 \<le> block_start t" "uint (strstart t) + uint (lookahead t) < 2 ^ 32"
    "block_start t + uint (stored_max_block_size s) < 2 ^ 32" by blast+
  show "deflate_stored ops s flush =
           stored_resume ops flush
             (case FLUSH_BLOCK ops (stored_full_block t (stored_max_block_size s)) False of
                Continue s' \<Rightarrow>
                  if strstart s' - word_of_int (block_start s') \<ge> MAX_DIST s'
                  then FLUSH_BLOCK ops s' False else Continue s'
              | other \<Rightarrow> other)"
    unfolding deflate_stored_pass [OF f] stored_copy_full_block(1) [OF l h b] ..
  show "FLUSH_BLOCK_ONLY ops (stored_full_block t (stored_max_block_size s)) False =
           flush_pending ops
             ((stored_full_block t (stored_max_block_size s))
                \<lparr>tr := tr_flush_block ops (stored_full_block t (stored_max_block_size s))
                         (Some (nat (block_start t))) (stored_max_block_size s) False,
                 block_start := block_start t + uint (stored_max_block_size s)\<rparr>)"
    by (rule stored_copy_full_block(2) [OF l h b])
next
  assume a: "deflate_stored_fill s flush = Some (Continue t) \<and> 0 \<le> block_start t \<and>
    uint (strstart t) + uint (lookahead t) < 2 ^ 32 \<and>
    block_start t + uint (stored_max_block_size s) < 2 ^ 32"
    and b: "bytes_ready t < uint (stored_max_block_size s)"
  from a have f: "deflate_stored_fill s flush = Some (Continue t)" by blast
  then have l: "lookahead t \<noteq> 0" by (rule deflate_stored_fill_lookahead)
  from a have h: "0 \<le> block_start t" "uint (strstart t) + uint (lookahead t) < 2 ^ 32"
    "block_start t + uint (stored_max_block_size s) < 2 ^ 32" by blast+
  show "deflate_stored ops s flush =
           stored_resume ops flush
             (if strstart t + lookahead t - word_of_int (block_start t) \<ge> MAX_DIST t
              then FLUSH_BLOCK ops (t\<lparr>strstart := strstart t + lookahead t, lookahead := 0\<rparr>)
                     False
              else Continue (t\<lparr>strstart := strstart t + lookahead t, lookahead := 0\<rparr>))"
    unfolding deflate_stored_pass [OF f] stored_copy_partial_block [OF l h b] ..
next
  assume "deflate_stored_fill s flush = Some (Return need_more t)"
  then show "deflate_stored ops s flush = Some (need_more, t)"
    by (rule deflate_stored_leave)
next
  assume a: "deflate_stored_fill s flush = Some (Break t)"
  then show "deflate_stored ops s flush = Some (deflate_stored_tail ops t flush)"
    unfolding deflate_stored_def by (subst deflate_stored_loop.simps) simp
  show "insert (snd (deflate_stored_tail ops t flush)) = 0"
    by (rule deflate_stored_tail_insert)
next
  fix r s'
  assume "deflate_stored ops s flush = Some (r, s') \<and> r \<noteq> need_more"
  then show "insert s' = 0" using deflate_stored_exit [of ops s flush r s'] by simp
qed

lemma head_init_stream_0_15_8: "head (init_stream 0 15 8) = (\<lambda>i. 0)"
  by (rule ext) (simp add: init_defs match_defs flush_defs configuration_table_def mk_config_def)

lemma init_stream_0_15_8:
  "next_in (init_stream 0 15 8) = None" "avail_in (init_stream 0 15 8) = 0"
  "total_in (init_stream 0 15 8) = 0" "next_out (init_stream 0 15 8) = None"
  "avail_out (init_stream 0 15 8) = 0" "total_out (init_stream 0 15 8) = 0"
  "msg (init_stream 0 15 8) = None" "status (init_stream 0 15 8) = BUSY_STATE"
  "last_flush (init_stream 0 15 8) = 0"
  "w_size (init_stream 0 15 8) = 32768" "w_bits (init_stream 0 15 8) = 15"
  "w_mask (init_stream 0 15 8) = 32767" "window (init_stream 0 15 8) = (\<lambda>i. 0)"
  "window_size (init_stream 0 15 8) = 65536" "prev (init_stream 0 15 8) = (\<lambda>i. 0)"
  "ins_h (init_stream 0 15 8) = 0"
  "hash_size (init_stream 0 15 8) = 32768" "hash_bits (init_stream 0 15 8) = 15"
  "hash_mask (init_stream 0 15 8) = 32767" "hash_shift (init_stream 0 15 8) = 5"
  "block_start (init_stream 0 15 8) = 0" "match_length (init_stream 0 15 8) = 2"
  "prev_match (init_stream 0 15 8) = 0" "match_available (init_stream 0 15 8) = 0"
  "strstart (init_stream 0 15 8) = 0" "match_start (init_stream 0 15 8) = 0"
  "lookahead (init_stream 0 15 8) = 0" "prev_length (init_stream 0 15 8) = 2"
  "max_chain_length (init_stream 0 15 8) = 0" "max_lazy_match (init_stream 0 15 8) = 0"
  "level (init_stream 0 15 8) = 0" "strategy (init_stream 0 15 8) = 0"
  "good_match (init_stream 0 15 8) = 0" "nice_match (init_stream 0 15 8) = 0"
  "insert (init_stream 0 15 8) = 0" "high_water (init_stream 0 15 8) = 0"
  "pending_buf_size (init_stream 0 15 8) = 65536" "lit_bufsize (init_stream 0 15 8) = 16384"
  "tr (init_stream 0 15 8) = zero_trees"
  by (simp_all add: init_defs match_defs flush_defs configuration_table_def mk_config_def)

lemma stored_example_fields:
  "lookahead stored_example = 0" "strstart stored_example = 2"
  "total_in stored_example = 2" "insert stored_example = 2"
  "w_size stored_example = 32768" "window_size stored_example = 65536"
  "avail_in stored_example = 1" "next_in stored_example = Some [99]"
  "high_water stored_example = 260" "hash_shift stored_example = 5"
  "hash_mask stored_example = 32767" "w_mask stored_example = 32767"
  "window stored_example = (\<lambda>i. if i < 2 then [97, 98] ! i else 0)"
  "ins_h stored_example = 0" "block_start stored_example = 2"
  "head stored_example = (\<lambda>i. 0)" "prev stored_example = (\<lambda>i. 0)"
  "pending_buf_size stored_example = 65536" "avail_out stored_example = 10"
  "tr stored_example = zero_trees"
  by (simp_all add: stored_example_def init_stream_0_15_8 head_init_stream_0_15_8)

lemma stored_max_block_size_stored_example: "stored_max_block_size stored_example = 65531"
  by (simp add: stored_max_block_size_def stored_example_fields Let_def)

lemma fill_window_read_stored_example:
  "fill_window_read stored_example 65534 = stored_read"
  apply (simp add: fill_window_read_def read_buf_def stored_example_fields match_defs Let_def)
  apply (subst fill_insert_loop.simps)
  apply (simp add: fill_insert_step_def UPDATE_HASH_def stored_example_fields match_defs Let_def
      stored_read_def)
  done

lemma stored_read_fields:
  "lookahead stored_read = 1" "strstart stored_read = 2" "avail_in stored_read = 0"
  "high_water stored_read = 260" "window_size stored_read = 65536" "insert stored_read = 1"
  "block_start stored_read = 2" "w_size stored_read = 32768" "avail_out stored_read = 10"
  "tr stored_read = zero_trees"
  by (simp_all add: stored_read_def stored_example_fields)

lemma fill_window_stored_example:
  "fill_window stored_example =
     Some (stored_read\<lparr>window := memset (window stored_read) 260 0 1, high_water := 261\<rparr>)"
  apply (simp add: fill_window_def)
  apply (subst fill_window_loop.simps)
  apply (simp add: fill_window_more_def stored_example_fields MAX_DIST_def match_defs Let_def
      fill_window_read_stored_example stored_read_fields fill_window_high_water_def)
  done

lemma stored_filled_fields:
  "lookahead stored_filled = 1" "strstart stored_filled = 2" "avail_in stored_filled = 0"
  "high_water stored_filled = 261" "window_size stored_filled = 65536"
  "insert stored_filled = 1" "block_start stored_filled = 2" "w_size stored_filled = 32768"
  "avail_out stored_filled = 10" "tr stored_filled = zero_trees"
  by (simp_all add: stored_filled_def stored_read_fields)

lemma stored_copied_fields:
  "lookahead stored_copied = 0" "strstart stored_copied = 3" "avail_in stored_copied = 0"
  "high_water stored_copied = 261" "window_size stored_copied = 65536"
  "insert stored_copied = 1" "block_start stored_copied = 2" "w_size stored_copied = 32768"
  "avail_out stored_copied = 10" "tr stored_copied = zero_trees"
  by (simp_all add: stored_copied_def stored_filled_fields)

lemma deflate_stored_fill_stored_example:
  "deflate_stored_fill stored_example flush = Some (Continue stored_filled)"
  by (simp add: deflate_stored_fill_def stored_example_fields fill_window_stored_example
      stored_read_fields stored_filled_def)

lemma deflate_stored_copy_stored_example:
  "deflate_stored_copy null_trees stored_filled 65531 = Continue stored_copied"
  by (simp add: deflate_stored_copy_def stored_filled_fields Let_def MAX_DIST_def match_defs
      stored_copied_def word_cmp_one)

lemma fill_window_stored_copied: "fill_window stored_copied = Some stored_copied"
  apply (simp add: fill_window_def)
  apply (subst fill_window_loop.simps)
  apply (simp add: fill_window_more_def stored_copied_fields MAX_DIST_def match_defs Let_def
      fill_window_high_water_def)
  done

lemma deflate_stored_fill_stored_copied:
  "deflate_stored_fill stored_copied 0 = Some (Return need_more stored_copied)"
  "deflate_stored_fill stored_copied 4 = Some (Break stored_copied)"
  by (simp_all add: deflate_stored_fill_def stored_copied_fields fill_window_stored_copied
      flush_defs)

lemma deflate_stored_loop_stored_example:
  "deflate_stored_loop null_trees stored_example 0 65531 = Some (Return need_more stored_copied)"
  "deflate_stored_loop null_trees stored_example 4 65531 = Some (Break stored_copied)"
proof -
  show "deflate_stored_loop null_trees stored_example 0 65531 =
          Some (Return need_more stored_copied)"
    apply (subst deflate_stored_loop.simps)
    apply (simp add: deflate_stored_fill_stored_example deflate_stored_copy_stored_example)
    apply (subst deflate_stored_loop.simps)
    apply (simp add: deflate_stored_fill_stored_copied)
    done
  show "deflate_stored_loop null_trees stored_example 4 65531 = Some (Break stored_copied)"
    apply (subst deflate_stored_loop.simps)
    apply (simp add: deflate_stored_fill_stored_example deflate_stored_copy_stored_example)
    apply (subst deflate_stored_loop.simps)
    apply (simp add: deflate_stored_fill_stored_copied)
    done
qed

lemma deflate_stored_stored_example:
  "deflate_stored null_trees stored_example 0 = Some (need_more, stored_copied)"
  "map_option fst (deflate_stored null_trees stored_example 4) = Some finish_done"
proof -
  show "deflate_stored null_trees stored_example 0 = Some (need_more, stored_copied)"
    by (simp add: deflate_stored_def stored_max_block_size_stored_example
        deflate_stored_loop_stored_example)
  show "map_option fst (deflate_stored null_trees stored_example 4) = Some finish_done"
    by (simp add: deflate_stored_def stored_max_block_size_stored_example
        deflate_stored_loop_stored_example deflate_stored_tail_def finish_blocks_def
        FLUSH_BLOCK_def FLUSH_BLOCK_ONLY_def flush_pending_def Let_def flush_defs
        stored_copied_fields null_trees_simps zero_trees_fields)
qed

lemma full_block_example_fields:
  "lookahead full_block_example = 65536" "strstart full_block_example = 0"
  "block_start full_block_example = 0" "w_size full_block_example = 32768"
  "avail_out full_block_example = 10" "tr full_block_example = zero_trees"
  "pending_buf_size full_block_example = 65536"
  by (simp_all add: full_block_example_def init_stream_0_15_8)

lemma fill_window_slide_idle:
  assumes "strstart s \<ge> w_size s + MAX_DIST s" and "avail_in s = 0"
  shows "fill_window s = Some (fill_window_high_water (slide_window s))"
  unfolding fill_window_def
  by (subst fill_window_loop.simps)
     (simp add: fill_window_more_def Let_def assms slide_window_fields)

lemma len_trees_simps:
  "tr_flush_block len_trees s buf len is_last =
     (tr s)\<lparr>pending := pending (tr s) @ [ucast len, ucast (drop_bit 8 len)], last_lit := 0\<rparr>"
  "tr_flush_bits len_trees s = tr s"
  by (simp_all add: len_trees_def null_trees_def)

lemma full_block_example_output:
  "next_out full_block_example = Some []" "avail_in full_block_example = 0"
  "window_size full_block_example = 65536" "insert full_block_example = 0"
  "high_water full_block_example = 65536"
  by (simp_all add: full_block_example_def init_stream_0_15_8)

lemma stored_max_block_size_full_block_example:
  "stored_max_block_size full_block_example = 65531"
  by (simp add: stored_max_block_size_def full_block_example_fields Let_def)

lemma stored_flushed_fields:
  "lookahead stored_flushed = 5" "strstart stored_flushed = 65531"
  "block_start stored_flushed = 65531" "next_out stored_flushed = Some [251, 255]"
  "avail_out stored_flushed = 8" "pending (tr stored_flushed) = []"
  "pending_buf_size stored_flushed = 65536" "w_size stored_flushed = 32768"
  "avail_in stored_flushed = 0" "window_size stored_flushed = 65536"
  "high_water stored_flushed = 65536" "insert stored_flushed = 0"
  by (simp_all add: stored_flushed_def FLUSH_BLOCK_ONLY_def flush_pending_def Let_def
      stored_full_block_def bytes_ready_def full_block_example_fields
      full_block_example_output len_trees_simps zero_trees_fields)

lemma stored_joined_fields:
  "lookahead stored_joined = 0" "strstart stored_joined = 65536"
  "block_start stored_joined = 65531" "next_out stored_joined = Some [251, 255]"
  "avail_out stored_joined = 8" "pending (tr stored_joined) = []"
  "pending_buf_size stored_joined = 65536" "w_size stored_joined = 32768"
  "avail_in stored_joined = 0" "window_size stored_joined = 65536"
  "high_water stored_joined = 65536" "insert stored_joined = 0"
  by (simp_all add: stored_joined_def stored_flushed_fields)

lemma stored_slid_fields:
  "lookahead stored_slid = 0" "strstart stored_slid = 32768"
  "block_start stored_slid = 32763" "next_out stored_slid = Some [251, 255]"
  "avail_out stored_slid = 8" "pending (tr stored_slid) = []"
  by (simp_all add: stored_slid_def fill_window_high_water_def slide_window_def Let_def
      stored_joined_fields)

lemma deflate_stored_tail_stored_slid:
  "(\<lambda>(r, s). (r, next_out s, insert s, strstart s, block_start s))
     (deflate_stored_tail len_trees stored_slid 4) =
   (finish_done, Some [251, 255, 5, 0], 0, 32768, 32768)"
  by (simp add: deflate_stored_tail_def finish_blocks_def FLUSH_BLOCK_def FLUSH_BLOCK_ONLY_def
      flush_pending_def Let_def flush_defs stored_slid_fields len_trees_simps)

theorem deflate_stored_blocks_witness:
  "unat (stored_max_block_size full_block_example) = 65531 \<and>
   bytes_ready full_block_example = 65536 \<and>
   deflate_stored_fill full_block_example Z_FINISH = Some (Continue full_block_example) \<and>
   map_option (\<lambda>(r, s). (r, next_out s, insert s, strstart s, block_start s))
     (deflate_stored len_trees full_block_example Z_FINISH) =
     Some (finish_done, Some [251, 255, 5, 0], 0, 32768, 32768) \<and>
   insert stored_copied = 1 \<and>
   deflate_stored_fill stored_copied Z_NO_FLUSH = Some (Return need_more stored_copied) \<and>
   deflate_stored null_trees stored_copied Z_NO_FLUSH = Some (need_more, stored_copied) \<and>
   insert stored_example = 2 \<and>
   map_option (\<lambda>(r, s). (r, insert s)) (deflate_stored null_trees stored_example Z_FINISH) =
     Some (finish_done, 0)"
proof -
  note t0 = deflate_stored_blocks
    [where s = full_block_example and flush = 4 and t = full_block_example and ops = len_trees]
  note t1 = deflate_stored_blocks
    [where s = stored_flushed and flush = 4 and t = stored_flushed and ops = len_trees]
  note t2 = deflate_stored_blocks
    [where s = stored_joined and flush = 4 and t = stored_slid and ops = len_trees]
  note t3 = deflate_stored_blocks
    [where s = stored_copied and flush = 0 and t = stored_copied and ops = null_trees]
  note m0 = stored_max_block_size_full_block_example
  have a: "unat (stored_max_block_size full_block_example) = 65531"
    using t0 by (simp add: full_block_example_fields)
  have r0: "bytes_ready full_block_example = 65536"
    by (simp add: bytes_ready_def full_block_example_fields)
  have f0: "deflate_stored_fill full_block_example 4 = Some (Continue full_block_example)"
    by (simp add: deflate_stored_fill_def full_block_example_fields word_cmp_one)
  have h0: "0 \<le> block_start full_block_example"
    "uint (strstart full_block_example) + uint (lookahead full_block_example) < 2 ^ 32"
    "block_start full_block_example + uint (stored_max_block_size full_block_example) < 2 ^ 32"
    "uint (stored_max_block_size full_block_example) \<le> bytes_ready full_block_example"
    by (simp_all add: r0 m0 full_block_example_fields)
  from t0 f0 h0 have "deflate_stored len_trees full_block_example 4 =
      stored_resume len_trees 4
        (case FLUSH_BLOCK len_trees
                (stored_full_block full_block_example
                   (stored_max_block_size full_block_example)) False of
           Continue s' \<Rightarrow>
             if strstart s' - word_of_int (block_start s') \<ge> MAX_DIST s'
             then FLUSH_BLOCK len_trees s' False else Continue s'
         | other \<Rightarrow> other)"
    by blast
  moreover have "FLUSH_BLOCK len_trees (stored_full_block full_block_example 65531) False =
      Continue stored_flushed"
    by (simp add: FLUSH_BLOCK_def stored_flushed_def [symmetric] stored_flushed_fields)
  ultimately have e0: "deflate_stored len_trees full_block_example 4 =
      deflate_stored len_trees stored_flushed 4"
    by (simp add: m0 stored_resume_def MAX_DIST_def match_defs stored_flushed_fields)
  have m1: "stored_max_block_size stored_flushed = 65531"
    by (simp add: stored_max_block_size_def stored_flushed_fields Let_def)
  have f1: "deflate_stored_fill stored_flushed 4 = Some (Continue stored_flushed)"
    by (simp add: deflate_stored_fill_def stored_flushed_fields word_cmp_one)
  have h1: "0 \<le> block_start stored_flushed"
    "uint (strstart stored_flushed) + uint (lookahead stored_flushed) < 2 ^ 32"
    "block_start stored_flushed + uint (stored_max_block_size stored_flushed) < 2 ^ 32"
    "bytes_ready stored_flushed < uint (stored_max_block_size stored_flushed)"
    by (simp_all add: bytes_ready_def m1 stored_flushed_fields)
  from t1 f1 h1 have "deflate_stored len_trees stored_flushed 4 =
      stored_resume len_trees 4
        (if strstart stored_flushed + lookahead stored_flushed -
              word_of_int (block_start stored_flushed) \<ge> MAX_DIST stored_flushed
         then FLUSH_BLOCK len_trees
                (stored_flushed\<lparr>strstart := strstart stored_flushed + lookahead stored_flushed,
                                 lookahead := 0\<rparr>) False
         else Continue
                (stored_flushed\<lparr>strstart := strstart stored_flushed + lookahead stored_flushed,
                                 lookahead := 0\<rparr>))"
    by blast
  then have e1: "deflate_stored len_trees stored_flushed 4 =
      deflate_stored len_trees stored_joined 4"
    unfolding stored_joined_def [symmetric]
    by (simp add: stored_resume_def MAX_DIST_def match_defs stored_flushed_fields)
  have "fill_window stored_joined = Some stored_slid"
    unfolding stored_slid_def
    by (rule fill_window_slide_idle)
       (simp_all add: stored_joined_fields MAX_DIST_def match_defs)
  then have f2: "deflate_stored_fill stored_joined 4 = Some (Break stored_slid)"
    by (simp add: deflate_stored_fill_def stored_joined_fields stored_slid_fields flush_defs)
  from t2 f2 have e2: "deflate_stored len_trees stored_joined 4 =
      Some (deflate_stored_tail len_trees stored_slid 4)"
    by blast
  have g: "map_option (\<lambda>(r, s). (r, next_out s, insert s, strstart s, block_start s))
     (deflate_stored len_trees full_block_example 4) =
     Some (finish_done, Some [251, 255, 5, 0], 0, 32768, 32768)"
    unfolding e0 e1 e2 using deflate_stored_tail_stored_slid by simp
  have f3: "deflate_stored_fill stored_copied 0 = Some (Return need_more stored_copied)"
    by (rule deflate_stored_fill_stored_copied(1))
  from t3 f3 have e3: "deflate_stored null_trees stored_copied 0 = Some (need_more, stored_copied)"
    by blast
  obtain r s' where d: "deflate_stored null_trees stored_example 4 = Some (r, s')"
    and e: "r = finish_done"
    using deflate_stored_stored_example(2) by fastforce
  have "insert s' = 0"
    using deflate_stored_blocks [where s = stored_example and flush = 4 and ops = null_trees]
      d e by blast
  then have k: "map_option (\<lambda>(r, s). (r, insert s)) (deflate_stored null_trees stored_example 4) =
     Some (finish_done, 0)"
    using d e by simp
  show ?thesis
    using a r0 f0 g f3 e3 k
    by (simp add: flush_defs stored_copied_fields stored_example_fields)
qed

lemma fresh_stored_example_fields:
  "lookahead fresh_stored_example = 0" "strstart fresh_stored_example = 0"
  "total_in fresh_stored_example = 0" "insert fresh_stored_example = 0"
  "w_size fresh_stored_example = 32768" "window_size fresh_stored_example = 65536"
  "avail_in fresh_stored_example = 1" "next_in fresh_stored_example = Some [99]"
  "high_water fresh_stored_example = 0" "window fresh_stored_example = (\<lambda>i. 0)"
  "block_start fresh_stored_example = 0"
  by (simp_all add: fresh_stored_example_def init_stream_0_15_8)

lemma fill_window_fresh_stored_example:
  "map_option (\<lambda>s. (strstart s, lookahead s, insert s, high_water s, total_in s, window s 0, window s 1))
     (fill_window (fresh_stored_example\<lparr>avail_in := 2, next_in := Some [97, 98]\<rparr>)) =
   Some (0, 2, 0, 260, 2, 97, 98)"
  apply (simp add: fill_window_def)
  apply (subst fill_window_loop.simps)
  apply (simp add: fill_window_more_def fill_window_read_def read_buf_def
      fresh_stored_example_fields MAX_DIST_def match_defs Let_def word_cmp_one
      fill_window_high_water_def memset_def)
  done

lemma deflateSetDictionary_fresh_stored_example:
  "map_option
     (\<lambda>(r, s). (r, strstart s, block_start s, insert s, lookahead s, high_water s, total_in s,
                avail_in s, next_in s, window s 0, window s 1))
     (deflateSetDictionary fresh_stored_example [97, 98] 2) =
   Some (Z_OK, 2, 2, 2, 0, 260, 2, 1, Some [99], 97, 98)"
proof -
  obtain s where f: "fill_window (fresh_stored_example\<lparr>avail_in := 2, next_in := Some [97, 98]\<rparr>) = Some s"
    and g: "strstart s = 0" "lookahead s = 2" "insert s = 0" "high_water s = 260"
      "total_in s = 2" "window s 0 = 97" "window s 1 = 98"
    using fill_window_fresh_stored_example by fastforce
  have d: "dict_loop s = Some s"
    by (subst dict_loop.simps) (simp add: g match_defs)
  have w: "window s (Suc 0) = 98" using g(7) by simp
  show ?thesis
    by (simp add: deflateSetDictionary_def fresh_stored_example_fields Let_def word_cmp_one
        f d g w)
qed

text \<open>
  The claim C2 as stated fails on \<open>stored_example\<close> with \<^verbatim>\<open>Z_NO_FLUSH\<close>: the call reads
  the one byte of input, finds no more, and returns \<^verbatim>\<open>need_more\<close> from inside the loop
  (deflate.cpp, line 1063) with \<open>insert = 1\<close>; the statement \<^verbatim>\<open>s->insert_ = 0\<close> after the
  loop is not reached. On the same stream \<^verbatim>\<open>max_block_size\<close> is 65531, not 65530.
\<close>

theorem deflate_stored_counterexample:
  "insert stored_example = 2 \<and> avail_in stored_example = 1 \<and>
   stored_max_block_size stored_example = 65531 \<and>
   map_option (\<lambda>(r, s). (r, insert s, avail_in s))
     (deflate_stored null_trees stored_example Z_NO_FLUSH) = Some (need_more, 1, 0)"
  by (simp add: stored_example_fields stored_max_block_size_stored_example flush_defs
      deflate_stored_stored_example stored_copied_fields)

end
